theory Spec2Isabelle
  imports Main "HOL-Library.Multiset" "HOL-Library.Sublist"
begin

section \<open>Data model\<close>

text \<open>
  Documents live in three collections (users, tweets, notifications). An ObjectId is a
  natural number, a timestamp the number of milliseconds of the clock. A collection is the
  list of its documents in insertion order; \<open>_id\<close> is the primary key of a collection,
  so an operation addressed to an \<open>_id\<close> concerns the document carrying it.
  Strings are character lists.
\<close>

type_synonym oid = nat
type_synonym time = nat

text \<open>
  Modelled from the spec: the schema file models/User.js is not among the sources. The
  fields are the ones the route handlers read and write (\<open>_id\<close>, name, username, email,
  password, bio, location, website, profileImage, followers, following, createdAt), with
  followers and following the arrays of user ids of section 3 of the specification.
\<close>

record user_doc =
  u_id :: oid
  name :: string
  username :: string
  email :: string
  password :: string
  bio :: string
  location :: string
  website :: string
  profileImage :: string
  followers :: "oid list"
  following :: "oid list"
  u_createdAt :: time

text \<open>models/Tweet.js, with the two timestamps of \<open>timestamps: true\<close>.\<close>

record tweet_doc =
  tweet_id :: oid
  user :: oid
  content :: string
  likes :: "oid list"
  retweets :: "oid list"
  replyTo :: "oid option"
  retweetData :: "oid option"
  media :: "string list"
  t_createdAt :: time
  t_updatedAt :: time

text \<open>models/Notification.js.\<close>

datatype notification_type = Like | Retweet | Reply | Follow | Mention

record notification_doc =
  n_id :: oid
  recipient :: oid
  sender :: oid
  n_type :: notification_type
  n_tweet :: "oid option"
  n_read :: bool
  message :: string
  n_createdAt :: time
  n_updatedAt :: time

text \<open>
  The database: the three collections and the next ObjectId the driver hands out.
\<close>

record db =
  users :: "user_doc list"
  tweets :: "tweet_doc list"
  notifications :: "notification_doc list"
  next_oid :: oid

text \<open>A failed request answers with an HTTP status and a message.\<close>

type_synonym error = "nat \<times> string"

section \<open>Persistence primitives\<close>

definition User_findById :: "user_doc list \<Rightarrow> oid \<Rightarrow> user_doc option" where
  "User_findById us i = find (\<lambda>d. u_id d = i) us"

definition Tweet_findById :: "tweet_doc list \<Rightarrow> oid \<Rightarrow> tweet_doc option" where
  "Tweet_findById ts i = find (\<lambda>d. tweet_id d = i) ts"

definition Notification_findById :: "notification_doc list \<Rightarrow> oid \<Rightarrow> notification_doc option" where
  "Notification_findById ns i = find (\<lambda>d. n_id d = i) ns"

text \<open>\<open>doc.save()\<close> of a loaded document writes it back under its \<open>_id\<close>.\<close>

definition User_save :: "user_doc \<Rightarrow> user_doc list \<Rightarrow> user_doc list" where
  "User_save u us = map (\<lambda>d. if u_id d = u_id u then u else d) us"

definition Tweet_save :: "time \<Rightarrow> tweet_doc \<Rightarrow> tweet_doc list \<Rightarrow> tweet_doc list" where
  "Tweet_save now t ts =
     map (\<lambda>d. if tweet_id d = tweet_id t then t\<lparr>t_updatedAt := now\<rparr> else d) ts"

definition Notification_save ::
  "time \<Rightarrow> notification_doc \<Rightarrow> notification_doc list \<Rightarrow> notification_doc list" where
  "Notification_save now n ns =
     map (\<lambda>d. if n_id d = n_id n then n\<lparr>n_updatedAt := now\<rparr> else d) ns"

text \<open>\<open>Model.countDocuments(filter)\<close> and \<open>Model.deleteMany(filter)\<close>.\<close>

definition countDocuments :: "('a \<Rightarrow> bool) \<Rightarrow> 'a list \<Rightarrow> nat" where
  "countDocuments p ds = length (filter p ds)"

definition deleteMany :: "('a \<Rightarrow> bool) \<Rightarrow> 'a list \<Rightarrow> 'a list" where
  "deleteMany p ds = filter (\<lambda>d. \<not> p d) ds"

text \<open>
  \<open>Notification.create\<close>: the new document takes the next ObjectId, \<open>read\<close> defaults to
  false, both timestamps are the time of creation.
\<close>

definition Notification_create ::
  "time \<Rightarrow> oid \<Rightarrow> oid \<Rightarrow> notification_type \<Rightarrow> oid option \<Rightarrow> string \<Rightarrow> db \<Rightarrow> db" where
  "Notification_create now rcpt sndr ty tw msg s =
     s\<lparr>notifications := notifications s @
          [\<lparr>n_id = next_oid s, recipient = rcpt, sender = sndr, n_type = ty, n_tweet = tw,
            n_read = False, message = msg, n_createdAt = now, n_updatedAt = now\<rparr>],
       next_oid := Suc (next_oid s)\<rparr>"

section \<open>middleware/auth.js\<close>

text \<open>
  \<open>protect\<close>: the argument is the user id the bearer token verifies to, \<open>None\<close> when the
  header is missing or the verification throws.
\<close>

definition protect :: "db \<Rightarrow> oid option \<Rightarrow> error + user_doc" where
  "protect s token =
     (case token of
        None \<Rightarrow> Inl (401, ''Not authorized to access this route'')
      | Some i \<Rightarrow>
          (case User_findById (users s) i of
             None \<Rightarrow> Inl (401, ''User not found'')
           | Some u \<Rightarrow> Inr u))"

section \<open>ObjectIds as text\<close>

text \<open>
  A route parameter \<open>:id\<close> arrives as text. The store casts a text of 24 hexadecimal
  digits, in upper or lower case, to the ObjectId it spells; \<open>toString\<close> writes an
  ObjectId as its 24 digits in lower case.
\<close>

definition hex_char :: "nat \<Rightarrow> char" where
  "hex_char d = ''0123456789abcdef'' ! d"

definition hex_val :: "char \<Rightarrow> nat option" where
  "hex_val c =
     map_of (zip ''0123456789abcdefABCDEF''
               [0, 1, 2, 3, 4, 5, 6, 7, 8, 9, 10, 11, 12, 13, 14, 15, 10, 11, 12, 13, 14, 15]) c"

fun hex_value_acc :: "nat \<Rightarrow> string \<Rightarrow> nat option" where
  "hex_value_acc a [] = Some a"
| "hex_value_acc a (c # cs) =
     (case hex_val c of None \<Rightarrow> None | Some d \<Rightarrow> hex_value_acc (16 * a + d) cs)"

definition ObjectId_cast :: "string \<Rightarrow> oid option" where
  "ObjectId_cast p = (if length p = 24 then hex_value_acc 0 p else None)"

function hex_digits :: "nat \<Rightarrow> string" where
  "hex_digits n =
     (if n < 16 then [hex_char n] else hex_digits (n div 16) @ [hex_char (n mod 16)])"
  by pat_completeness auto
termination
  by (relation "measure (\<lambda>n. n)") auto

definition ObjectId_toString :: "oid \<Rightarrow> string" where
  "ObjectId_toString i = replicate (24 - length (hex_digits i)) CHR ''0'' @ hex_digits i"

section \<open>Routes on users: follow and unfollow\<close>

text \<open>
  A mutating route returns its response together with the database it leaves behind.
  \<open>POST /api/users/:id/follow\<close>. The handler looks the user up by the parameter, which
  the store casts (a text that is no ObjectId makes the lookup throw), and compares the
  text of the requester's id with the parameter as it was sent. The other routes use their
  parameter through the store's cast only and take the id it spells.
\<close>

definition follow :: "db \<Rightarrow> time \<Rightarrow> oid option \<Rightarrow> string \<Rightarrow> (error + string) \<times> db" where
  "follow s now token params_id =
     (case protect s token of
        Inl e \<Rightarrow> (Inl e, s)
      | Inr req_user \<Rightarrow>
          (case ObjectId_cast params_id of
             None \<Rightarrow> (Inl (500, ''Server error''), s)
           | Some pid \<Rightarrow>
               (case User_findById (users s) pid of
                  None \<Rightarrow> (Inl (404, ''User not found''), s)
                | Some userToFollow \<Rightarrow>
                    if u_id req_user \<in> set (followers userToFollow)
                    then (Inl (400, ''Already following this user''), s)
                    else if ObjectId_toString (u_id req_user) = params_id
                    then (Inl (400, ''You cannot follow yourself''), s)
                    else
                      let s1 = s\<lparr>users := User_save
                                 (userToFollow\<lparr>followers :=
                                     followers userToFollow @ [u_id req_user]\<rparr>)
                                 (users s)\<rparr>
                      in (case User_findById (users s1) (u_id req_user) of
                            None \<Rightarrow> (Inl (500, ''Server error''), s1)
                          | Some currentUser \<Rightarrow>
                              let s2 = s1\<lparr>users := User_save
                                         (currentUser\<lparr>following :=
                                             following currentUser @ [u_id userToFollow]\<rparr>)
                                         (users s1)\<rparr>;
                                  s3 = Notification_create now (u_id userToFollow)
                                         (u_id req_user) Follow None
                                         (name req_user @ '' started following you'') s2
                              in (Inr ''User followed successfully'', s3)))))"

text \<open>\<open>POST /api/users/:id/unfollow\<close>.\<close>

definition unfollow :: "db \<Rightarrow> oid option \<Rightarrow> oid \<Rightarrow> (error + string) \<times> db" where
  "unfollow s token pid =
     (case protect s token of
        Inl e \<Rightarrow> (Inl e, s)
      | Inr req_user \<Rightarrow>
          (case User_findById (users s) pid of
             None \<Rightarrow> (Inl (404, ''User not found''), s)
           | Some userToUnfollow \<Rightarrow>
               if u_id req_user \<notin> set (followers userToUnfollow)
               then (Inl (400, ''You are not following this user''), s)
               else
                 let s1 = s\<lparr>users := User_save
                            (userToUnfollow\<lparr>followers :=
                                filter (\<lambda>i. i \<noteq> u_id req_user) (followers userToUnfollow)\<rparr>)
                            (users s)\<rparr>
                 in (case User_findById (users s1) (u_id req_user) of
                       None \<Rightarrow> (Inl (500, ''Server error''), s1)
                     | Some currentUser \<Rightarrow>
                         let s2 = s1\<lparr>users := User_save
                                    (currentUser\<lparr>following :=
                                        filter (\<lambda>i. i \<noteq> u_id userToUnfollow)
                                          (following currentUser)\<rparr>)
                                    (users s1)\<rparr>
                         in (Inr ''User unfollowed successfully'', s2))))"

section \<open>Routes on tweets: like and unlike\<close>

text \<open>\<open>POST /api/tweets/:id/like\<close>.\<close>

definition like :: "db \<Rightarrow> time \<Rightarrow> oid option \<Rightarrow> oid \<Rightarrow> (error + string) \<times> db" where
  "like s now token pid =
     (case protect s token of
        Inl e \<Rightarrow> (Inl e, s)
      | Inr req_user \<Rightarrow>
          (case Tweet_findById (tweets s) pid of
             None \<Rightarrow> (Inl (404, ''Tweet not found''), s)
           | Some tweet \<Rightarrow>
               if u_id req_user \<in> set (likes tweet)
               then (Inl (400, ''Tweet already liked''), s)
               else
                 let tweet1 = tweet\<lparr>likes := likes tweet @ [u_id req_user]\<rparr>;
                     s1 = s\<lparr>tweets := Tweet_save now tweet1 (tweets s)\<rparr>;
                     s2 = (if user tweet1 \<noteq> u_id req_user
                           then Notification_create now (user tweet1) (u_id req_user)
                                  Like (Some (tweet_id tweet1))
                                  (name req_user @ '' liked your chirp'') s1
                           else s1)
                 in (Inr ''Tweet liked successfully'', s2)))"

text \<open>\<open>POST /api/tweets/:id/unlike\<close>.\<close>

definition unlike :: "db \<Rightarrow> time \<Rightarrow> oid option \<Rightarrow> oid \<Rightarrow> (error + string) \<times> db" where
  "unlike s now token pid =
     (case protect s token of
        Inl e \<Rightarrow> (Inl e, s)
      | Inr req_user \<Rightarrow>
          (case Tweet_findById (tweets s) pid of
             None \<Rightarrow> (Inl (404, ''Tweet not found''), s)
           | Some tweet \<Rightarrow>
               if u_id req_user \<notin> set (likes tweet)
               then (Inl (400, ''Tweet not liked''), s)
               else
                 let tweet1 = tweet\<lparr>likes := filter (\<lambda>i. i \<noteq> u_id req_user) (likes tweet)\<rparr>;
                     s1 = s\<lparr>tweets := Tweet_save now tweet1 (tweets s)\<rparr>
                 in (Inr ''Tweet unliked successfully'', s1)))"

text \<open>\<open>POST /api/tweets/:id/retweet\<close> and \<open>POST /api/tweets/:id/unretweet\<close>.\<close>

definition retweet :: "db \<Rightarrow> time \<Rightarrow> oid option \<Rightarrow> oid \<Rightarrow> (error + string) \<times> db" where
  "retweet s now token pid =
     (case protect s token of
        Inl e \<Rightarrow> (Inl e, s)
      | Inr req_user \<Rightarrow>
          (case Tweet_findById (tweets s) pid of
             None \<Rightarrow> (Inl (404, ''Tweet not found''), s)
           | Some tweet \<Rightarrow>
               if u_id req_user \<in> set (retweets tweet)
               then (Inl (400, ''Tweet already retweeted''), s)
               else
                 let tweet1 = tweet\<lparr>retweets := retweets tweet @ [u_id req_user]\<rparr>;
                     s1 = s\<lparr>tweets := Tweet_save now tweet1 (tweets s)\<rparr>;
                     s2 = (if user tweet1 \<noteq> u_id req_user
                           then Notification_create now (user tweet1) (u_id req_user)
                                  Retweet (Some (tweet_id tweet1))
                                  (name req_user @ '' retweeted your chirp'') s1
                           else s1)
                 in (Inr ''Tweet retweeted successfully'', s2)))"

definition unretweet :: "db \<Rightarrow> time \<Rightarrow> oid option \<Rightarrow> oid \<Rightarrow> (error + string) \<times> db" where
  "unretweet s now token pid =
     (case protect s token of
        Inl e \<Rightarrow> (Inl e, s)
      | Inr req_user \<Rightarrow>
          (case Tweet_findById (tweets s) pid of
             None \<Rightarrow> (Inl (404, ''Tweet not found''), s)
           | Some tweet \<Rightarrow>
               if u_id req_user \<notin> set (retweets tweet)
               then (Inl (400, ''Tweet not retweeted''), s)
               else
                 let tweet1 = tweet\<lparr>retweets :=
                                filter (\<lambda>i. i \<noteq> u_id req_user) (retweets tweet)\<rparr>;
                     s1 = s\<lparr>tweets := Tweet_save now tweet1 (tweets s)\<rparr>
                 in (Inr ''Tweet unretweeted successfully'', s1)))"

text \<open>
  \<open>DELETE /api/tweets/:id\<close>: the tweet goes by its \<open>_id\<close>, then every tweet whose
  \<open>replyTo\<close> is the id, then every notification whose \<open>tweet\<close> is the id.
\<close>

definition deleteTweet :: "db \<Rightarrow> oid option \<Rightarrow> oid \<Rightarrow> (error + string) \<times> db" where
  "deleteTweet s token pid =
     (case protect s token of
        Inl e \<Rightarrow> (Inl e, s)
      | Inr req_user \<Rightarrow>
          (case Tweet_findById (tweets s) pid of
             None \<Rightarrow> (Inl (404, ''Tweet not found''), s)
           | Some tweet \<Rightarrow>
               if user tweet \<noteq> u_id req_user
               then (Inl (401, ''User not authorized''), s)
               else
                 let s1 = s\<lparr>tweets := deleteMany (\<lambda>d. tweet_id d = tweet_id tweet) (tweets s)\<rparr>;
                     s2 = s1\<lparr>tweets := deleteMany (\<lambda>d. replyTo d = Some pid) (tweets s1)\<rparr>;
                     s3 = s2\<lparr>notifications :=
                                deleteMany (\<lambda>n. n_tweet n = Some pid) (notifications s2)\<rparr>
                 in (Inr ''Tweet deleted successfully'', s3)))"

section \<open>Creating a tweet\<close>

text \<open>
  \<open>String.prototype.trim\<close> removes white space and line terminators at both ends; among
  the characters of the model these are TAB, LF, VT, FF, CR, SP and NBSP.
\<close>

definition is_space :: "char \<Rightarrow> bool" where
  "is_space c = ((of_char c :: nat) \<in> {9, 10, 11, 12, 13, 32, 160})"

definition trim :: "string \<Rightarrow> string" where
  "trim cs = rev (dropWhile is_space (rev (dropWhile is_space cs)))"

text \<open>
  The formatted tweet of the responses. \<open>populate('user', 'name username profileImage')\<close>
  replaces the author's id by these fields of the user document, or by null when there is
  none; \<open>f_replyTo\<close> is the id under the key \<open>replyTo\<close>, \<open>None\<close> where the route sends no
  such key.
\<close>

record populated_user =
  p_id :: oid
  p_name :: string
  p_username :: string
  p_profileImage :: string

record ftweet =
  f_id :: oid
  f_content :: string
  f_user :: "populated_user option"
  f_createdAt :: time
  likeCount :: nat
  retweetCount :: nat
  replyCount :: nat
  isLiked :: bool
  isRetweeted :: bool
  f_replyTo :: "oid option"

definition populate_user :: "user_doc list \<Rightarrow> oid \<Rightarrow> populated_user option" where
  "populate_user us i =
     map_option (\<lambda>u. \<lparr>p_id = u_id u, p_name = name u, p_username = username u,
                      p_profileImage = profileImage u\<rparr>) (User_findById us i)"

text \<open>
  \<open>POST /api/tweets\<close>. The body's \<open>content\<close> and \<open>replyTo\<close> are optional; the new tweet
  takes its ObjectId when it is constructed, before the notification of a reply.
\<close>

definition createTweet ::
  "db \<Rightarrow> time \<Rightarrow> oid option \<Rightarrow> string option \<Rightarrow> oid option \<Rightarrow> (error + ftweet) \<times> db" where
  "createTweet s now token content_param replyTo_param =
     (case protect s token of
        Inl e \<Rightarrow> (Inl e, s)
      | Inr req_user \<Rightarrow>
          (case content_param of
             None \<Rightarrow> (Inl (400, ''Tweet content is required''), s)
           | Some c \<Rightarrow>
               if c = [] \<or> trim c = []
               then (Inl (400, ''Tweet content is required''), s)
               else if length c > 280
               then (Inl (400, ''Tweet cannot exceed 280 characters''), s)
               else
                 let newTweet = \<lparr>tweet_id = next_oid s, user = u_id req_user, content = c,
                                 likes = [], retweets = [], replyTo = None, retweetData = None,
                                 media = [], t_createdAt = now, t_updatedAt = now\<rparr>;
                     s0 = s\<lparr>next_oid := Suc (next_oid s)\<rparr>;
                     finish = (\<lambda>tw s'.
                        (Inr \<lparr>f_id = tweet_id tw, f_content = content tw,
                              f_user = populate_user (users s') (user tw),
                              f_createdAt = t_createdAt tw, likeCount = 0, retweetCount = 0,
                              replyCount = 0, isLiked = False, isRetweeted = False,
                              f_replyTo = replyTo tw\<rparr>,
                         s'\<lparr>tweets := tweets s' @ [tw]\<rparr>))
                 in (case replyTo_param of
                       None \<Rightarrow> finish newTweet s0
                     | Some r \<Rightarrow>
                         (case Tweet_findById (tweets s0) r of
                            None \<Rightarrow> (Inl (404, ''Original tweet not found''), s0)
                          | Some originalTweet \<Rightarrow>
                              let newTweet1 = newTweet\<lparr>replyTo := Some r\<rparr>;
                                  s1 = (if user originalTweet \<noteq> u_id req_user
                                        then Notification_create now (user originalTweet)
                                               (u_id req_user) Reply (Some (tweet_id newTweet1))
                                               (name req_user @ '' replied to your chirp'') s0
                                        else s0)
                              in finish newTweet1 s1))))"

section \<open>Feeds\<close>

text \<open>
  \<open>.sort({ createdAt: -1 })\<close> is a stable sort on the creation time, newest first;
  \<open>.limit(n)\<close> keeps the first \<open>n\<close> documents.
\<close>

definition sort_createdAt_desc :: "tweet_doc list \<Rightarrow> tweet_doc list" where
  "sort_createdAt_desc ts = sort_key (\<lambda>t. - int (t_createdAt t)) ts"

definition limit :: "nat \<Rightarrow> 'a list \<Rightarrow> 'a list" where
  "limit n ds = take n ds"

text \<open>
  The callback of \<open>tweets.map\<close>: \<open>req.user\<close> is the viewer, absent on a request that no
  middleware has authenticated. The reply count starts at 0.
\<close>

definition formatTweet :: "user_doc list \<Rightarrow> user_doc option \<Rightarrow> tweet_doc \<Rightarrow> ftweet" where
  "formatTweet us req_user tweet =
     \<lparr>f_id = tweet_id tweet, f_content = content tweet,
      f_user = populate_user us (user tweet), f_createdAt = t_createdAt tweet,
      likeCount = length (likes tweet), retweetCount = length (retweets tweet),
      replyCount = 0,
      isLiked = (case req_user of Some v \<Rightarrow> u_id v \<in> set (likes tweet) | None \<Rightarrow> False),
      isRetweeted = (case req_user of Some v \<Rightarrow> u_id v \<in> set (retweets tweet) | None \<Rightarrow> False),
      f_replyTo = None\<rparr>"

text \<open>
  The loop \<open>for (let i = 0; i < formattedTweets.length; i++)\<close> that counts, for each
  entry, the tweets replying to it and stores the count in the entry.
\<close>

function replyCounts :: "tweet_doc list \<Rightarrow> nat \<Rightarrow> ftweet list \<Rightarrow> ftweet list" where
  "replyCounts ts i formattedTweets =
     (if i < length formattedTweets
      then replyCounts ts (Suc i)
             (formattedTweets[i := (formattedTweets ! i)
                \<lparr>replyCount := countDocuments (\<lambda>d. replyTo d = Some (f_id (formattedTweets ! i))) ts\<rparr>])
      else formattedTweets)"
  by pat_completeness auto
termination
  by (relation "measure (\<lambda>(ts, i, fs). length fs - i)") auto

text \<open>\<open>GET /api/tweets/timeline\<close> (behind \<open>protect\<close>).\<close>

definition timeline :: "db \<Rightarrow> oid option \<Rightarrow> error + ftweet list" where
  "timeline s token =
     (case protect s token of
        Inl e \<Rightarrow> Inl e
      | Inr req_user \<Rightarrow>
          (case User_findById (users s) (u_id req_user) of
             None \<Rightarrow> Inl (500, ''Server error'')
           | Some usr \<Rightarrow>
               let following1 = following usr @ [u_id req_user];
                   found = limit 50 (sort_createdAt_desc
                             (filter (\<lambda>d. user d \<in> set following1 \<and> replyTo d = None) (tweets s)));
                   formattedTweets = map (formatTweet (users s) (Some req_user)) found
               in Inr (replyCounts (tweets s) 0 formattedTweets)))"

text \<open>\<open>GET /api/tweets/explore\<close> (public: the handler reads \<open>req.user\<close> as it finds it).\<close>

definition explore :: "db \<Rightarrow> user_doc option \<Rightarrow> error + ftweet list" where
  "explore s req_user =
     (let found = limit 50 (sort_createdAt_desc (filter (\<lambda>d. replyTo d = None) (tweets s)));
          formattedTweets = map (formatTweet (users s) req_user) found
      in Inr (replyCounts (tweets s) 0 formattedTweets))"

text \<open>\<open>GET /api/tweets/:id/replies\<close> (public, no limit).\<close>

definition replies :: "db \<Rightarrow> user_doc option \<Rightarrow> oid \<Rightarrow> error + ftweet list" where
  "replies s req_user pid =
     (let found = sort_createdAt_desc (filter (\<lambda>d. replyTo d = Some pid) (tweets s));
          formattedReplies =
            map (\<lambda>reply. (formatTweet (users s) req_user reply)\<lparr>f_replyTo := Some pid\<rparr>) found
      in Inr (replyCounts (tweets s) 0 formattedReplies))"

section \<open>routes/search.js\<close>

text \<open>
  The query string is handed to the store as \<open>$regex\<close> with option \<open>i\<close>. The model
  covers the patterns made of ordinary characters and of the dot, which matches any
  character but a line feed; a pattern with another metacharacter
  (the backslash or one of \<open>^ $ * + ? ( ) [ ] { } |\<close>) is outside the model and
  \<open>compile_regex\<close> answers \<open>None\<close>. Under option \<open>i\<close> an ordinary character of the
  pattern matches itself and its other case. The characters are the code points up to 255:
  the letters with two cases are A to Z and the accented capitals from 0xC0 to 0xDE
  (0xD7, the multiplication sign, is no letter), each 32 below its small letter.
\<close>

definition upper_letters :: string where
  "upper_letters = ''ABCDEFGHIJKLMNOPQRSTUVWXYZ'' @
     [CHR 0xC0, CHR 0xC1, CHR 0xC2, CHR 0xC3, CHR 0xC4, CHR 0xC5, CHR 0xC6, CHR 0xC7,
      CHR 0xC8, CHR 0xC9, CHR 0xCA, CHR 0xCB, CHR 0xCC, CHR 0xCD, CHR 0xCE, CHR 0xCF,
      CHR 0xD0, CHR 0xD1, CHR 0xD2, CHR 0xD3, CHR 0xD4, CHR 0xD5, CHR 0xD6,
      CHR 0xD8, CHR 0xD9, CHR 0xDA, CHR 0xDB, CHR 0xDC, CHR 0xDD, CHR 0xDE]"

definition lower_letters :: string where
  "lower_letters = ''abcdefghijklmnopqrstuvwxyz'' @
     [CHR 0xE0, CHR 0xE1, CHR 0xE2, CHR 0xE3, CHR 0xE4, CHR 0xE5, CHR 0xE6, CHR 0xE7,
      CHR 0xE8, CHR 0xE9, CHR 0xEA, CHR 0xEB, CHR 0xEC, CHR 0xED, CHR 0xEE, CHR 0xEF,
      CHR 0xF0, CHR 0xF1, CHR 0xF2, CHR 0xF3, CHR 0xF4, CHR 0xF5, CHR 0xF6,
      CHR 0xF8, CHR 0xF9, CHR 0xFA, CHR 0xFB, CHR 0xFC, CHR 0xFD, CHR 0xFE]"

definition other_case :: "char \<Rightarrow> char" where
  "other_case c =
     (case map_of (zip upper_letters lower_letters @ zip lower_letters upper_letters) c of
        Some d \<Rightarrow> d
      | None \<Rightarrow> c)"

datatype atom = Lit char | AnyChar

definition is_meta :: "char \<Rightarrow> bool" where
  "is_meta c = (c \<in> set (CHR 0x5C # ''^$*+?()[]{}|''))"

fun compile_regex :: "string \<Rightarrow> atom list option" where
  "compile_regex [] = Some []"
| "compile_regex (c # cs) =
     (if is_meta c then None
      else map_option ((#) (if c = CHR ''.'' then AnyChar else Lit c)) (compile_regex cs))"

fun atom_ok :: "atom \<Rightarrow> char \<Rightarrow> bool" where
  "atom_ok (Lit l) c = (c = l \<or> c = other_case l)"
| "atom_ok AnyChar c = (c \<noteq> CHR 0x0A)"

fun match_here :: "atom list \<Rightarrow> string \<Rightarrow> bool" where
  "match_here [] cs = True"
| "match_here (a # as) [] = False"
| "match_here (a # as) (c # cs) = (atom_ok a c \<and> match_here as cs)"

fun regex_test :: "atom list \<Rightarrow> string \<Rightarrow> bool" where
  "regex_test re [] = match_here re []"
| "regex_test re (c # cs) = (match_here re (c # cs) \<or> regex_test re cs)"

text \<open>
  \<open>GET /api/search\<close> (public). The outer \<open>None\<close> is a query outside the modelled patterns.
\<close>

definition search :: "db \<Rightarrow> user_doc option \<Rightarrow> string option \<Rightarrow> (error + ftweet list) option" where
  "search s req_user q =
     (case q of
        None \<Rightarrow> Some (Inl (400, ''Search query is required''))
      | Some qs \<Rightarrow>
          if qs = [] then Some (Inl (400, ''Search query is required''))
          else
            (case compile_regex qs of
               None \<Rightarrow> None
             | Some re \<Rightarrow>
                 let found = limit 50 (sort_createdAt_desc
                               (filter (\<lambda>d. regex_test re (content d)) (tweets s)));
                     formattedTweets = map (formatTweet (users s) req_user) found
                 in Some (Inr (replyCounts (tweets s) 0 formattedTweets))))"

section \<open>Profiles\<close>

text \<open>
  A JSON object is the list of its keys and values in the order they are set.
\<close>

datatype json = JString string | JNumber nat | JBool bool | JObjectId oid | JDate time

definition User_findOne_username :: "user_doc list \<Rightarrow> string \<Rightarrow> user_doc option" where
  "User_findOne_username us n = find (\<lambda>d. username d = n) us"

text \<open>\<open>GET /api/users/:username\<close> (public).\<close>

definition getProfile :: "db \<Rightarrow> user_doc option \<Rightarrow> string \<Rightarrow> error + (string \<times> json) list" where
  "getProfile s req_user uname =
     (case User_findOne_username (users s) uname of
        None \<Rightarrow> Inl (404, ''User not found'')
      | Some usr \<Rightarrow>
          let tweetsCount = countDocuments (\<lambda>d. user d = u_id usr) (tweets s);
              userData =
                [(''_id'', JObjectId (u_id usr)),
                 (''name'', JString (name usr)),
                 (''username'', JString (username usr)),
                 (''email'', JString (email usr)),
                 (''bio'', JString (bio usr)),
                 (''location'', JString (location usr)),
                 (''website'', JString (website usr)),
                 (''profileImage'', JString (profileImage usr)),
                 (''followers'', JNumber (length (followers usr))),
                 (''following'', JNumber (length (following usr))),
                 (''createdAt'', JDate (u_createdAt usr)),
                 (''tweetsCount'', JNumber tweetsCount)]
          in Inr (case req_user of
                    Some v \<Rightarrow> userData @ [(''isFollowing'', JBool (u_id v \<in> set (followers usr)))]
                  | None \<Rightarrow> userData))"

text \<open>
  \<open>PUT /api/users/profile\<close>: a name is taken when it is not empty, each other field
  when the body defines it.
\<close>

definition updateProfile ::
  "db \<Rightarrow> oid option \<Rightarrow> string option \<Rightarrow> string option \<Rightarrow> string option \<Rightarrow> string option \<Rightarrow>
   string option \<Rightarrow> (error + (string \<times> json) list) \<times> db" where
  "updateProfile s token name_p bio_p location_p website_p profileImage_p =
     (case protect s token of
        Inl e \<Rightarrow> (Inl e, s)
      | Inr req_user \<Rightarrow>
          (case User_findById (users s) (u_id req_user) of
             None \<Rightarrow> (Inl (404, ''User not found''), s)
           | Some usr \<Rightarrow>
               let u1 = (case name_p of Some n \<Rightarrow> if n \<noteq> [] then usr\<lparr>name := n\<rparr> else usr
                         | None \<Rightarrow> usr);
                   u2 = (case bio_p of Some b \<Rightarrow> u1\<lparr>bio := b\<rparr> | None \<Rightarrow> u1);
                   u3 = (case location_p of Some l \<Rightarrow> u2\<lparr>location := l\<rparr> | None \<Rightarrow> u2);
                   u4 = (case website_p of Some w \<Rightarrow> u3\<lparr>website := w\<rparr> | None \<Rightarrow> u3);
                   u5 = (case profileImage_p of Some i \<Rightarrow> u4\<lparr>profileImage := i\<rparr> | None \<Rightarrow> u4)
               in (Inr [(''_id'', JObjectId (u_id u5)),
                        (''name'', JString (name u5)),
                        (''username'', JString (username u5)),
                        (''email'', JString (email u5)),
                        (''bio'', JString (bio u5)),
                        (''location'', JString (location u5)),
                        (''website'', JString (website u5)),
                        (''profileImage'', JString (profileImage u5))],
                   s\<lparr>users := User_save u5 (users s)\<rparr>)))"

section \<open>Routes on notifications\<close>

text \<open>
  \<open>POST /api/notifications/:id/read\<close>: a notification that is read already is not
  modified, and saving it writes nothing.
\<close>

definition markRead :: "db \<Rightarrow> time \<Rightarrow> oid option \<Rightarrow> oid \<Rightarrow> (error + string) \<times> db" where
  "markRead s now token nid =
     (case protect s token of
        Inl e \<Rightarrow> (Inl e, s)
      | Inr req_user \<Rightarrow>
          (case Notification_findById (notifications s) nid of
             None \<Rightarrow> (Inl (404, ''Notification not found''), s)
           | Some notification \<Rightarrow>
               if recipient notification \<noteq> u_id req_user
               then (Inl (401, ''Not authorized''), s)
               else
                 (Inr ''Notification marked as read'',
                  if n_read notification then s
                  else s\<lparr>notifications :=
                          Notification_save now (notification\<lparr>n_read := True\<rparr>)
                            (notifications s)\<rparr>)))"

text \<open>\<open>POST /api/notifications/read-all\<close>.\<close>

definition markAllRead :: "db \<Rightarrow> time \<Rightarrow> oid option \<Rightarrow> (error + string) \<times> db" where
  "markAllRead s now token =
     (case protect s token of
        Inl e \<Rightarrow> (Inl e, s)
      | Inr req_user \<Rightarrow>
          (Inr ''All notifications marked as read'',
           s\<lparr>notifications :=
               map (\<lambda>n. if recipient n = u_id req_user \<and> \<not> n_read n
                        then n\<lparr>n_read := True, n_updatedAt := now\<rparr> else n)
                   (notifications s)\<rparr>))"

section \<open>Reachable databases\<close>

text \<open>
  A database is reachable when it starts without notifications and every later change is
  the effect of one request to a mutating route. Accounts are registered by routes that are
  not among the sources, so the users collection may also change freely.
\<close>

inductive reachable :: "db \<Rightarrow> bool" where
  r_init: "notifications s = [] \<Longrightarrow> reachable s"
| r_accounts: "reachable s \<Longrightarrow> reachable (s\<lparr>users := us\<rparr>)"
| r_updateProfile: "reachable s \<Longrightarrow> reachable (snd (updateProfile s token n b l w i))"
| r_follow: "reachable s \<Longrightarrow> reachable (snd (follow s now token pid))"
| r_unfollow: "reachable s \<Longrightarrow> reachable (snd (unfollow s token pid))"
| r_createTweet: "reachable s \<Longrightarrow> reachable (snd (createTweet s now token c r))"
| r_like: "reachable s \<Longrightarrow> reachable (snd (like s now token pid))"
| r_unlike: "reachable s \<Longrightarrow> reachable (snd (unlike s now token pid))"
| r_retweet: "reachable s \<Longrightarrow> reachable (snd (retweet s now token pid))"
| r_unretweet: "reachable s \<Longrightarrow> reachable (snd (unretweet s now token pid))"
| r_deleteTweet: "reachable s \<Longrightarrow> reachable (snd (deleteTweet s token pid))"
| r_markRead: "reachable s \<Longrightarrow> reachable (snd (markRead s now token nid))"
| r_markAllRead: "reachable s \<Longrightarrow> reachable (snd (markAllRead s now token))"

section \<open>Notions of the specification\<close>

text \<open>
  \<open>sel\<close> is a feed of at most \<open>n\<close> of the posts \<open>matching\<close>, newest first: it has
  \<open>min n (length matching)\<close> entries taken from \<open>matching\<close>, in descending order of
  creation time, and no post left out is newer than a post taken.
\<close>

definition newest_first_capped :: "nat \<Rightarrow> tweet_doc list \<Rightarrow> tweet_doc list \<Rightarrow> bool" where
  "newest_first_capped n matching sel \<longleftrightarrow>
     length sel = min n (length matching) \<and>
     sorted_wrt (\<lambda>a b. t_createdAt a \<ge> t_createdAt b) sel \<and>
     mset sel \<subseteq># mset matching \<and>
     (\<forall>x \<in># mset matching - mset sel. \<forall>y \<in> set sel. t_createdAt x \<le> t_createdAt y)"

text \<open>
  The entry \<open>f\<close> of a response shows the stored post \<open>t\<close> to the viewer: its id, text,
  time and counters, the viewer's like and retweet flags (false without a viewer) and the
  number of stored posts that reply to \<open>t\<close>.
\<close>

definition decorated :: "db \<Rightarrow> oid option \<Rightarrow> ftweet \<Rightarrow> tweet_doc \<Rightarrow> bool" where
  "decorated s viewer f t \<longleftrightarrow>
     f_id f = tweet_id t \<and> f_content f = content t \<and> f_createdAt f = t_createdAt t \<and>
     likeCount f = length (likes t) \<and> retweetCount f = length (retweets t) \<and>
     isLiked f = (case viewer of Some v \<Rightarrow> v \<in> set (likes t) | None \<Rightarrow> False) \<and>
     isRetweeted f = (case viewer of Some v \<Rightarrow> v \<in> set (retweets t) | None \<Rightarrow> False) \<and>
     replyCount f = length (filter (\<lambda>d. replyTo d = Some (tweet_id t)) (tweets s))"

text \<open>
  The text \<open>c\<close> contains the query \<open>q\<close> as a substring, letters compared without case:
  with every capital letter of both replaced by its small letter, \<open>q\<close> is a substring of
  \<open>c\<close>.
\<close>

definition to_lower :: "char \<Rightarrow> char" where
  "to_lower c = (case map_of (zip upper_letters lower_letters) c of Some l \<Rightarrow> l | None \<Rightarrow> c)"

definition contains_ci :: "string \<Rightarrow> string \<Rightarrow> bool" where
  "contains_ci q c \<longleftrightarrow> sublist (map to_lower q) (map to_lower c)"

text \<open>
  The flags of the entry \<open>f\<close> are those of the stored post with the entry's id, seen by
  the viewer.
\<close>

definition viewer_flags :: "db \<Rightarrow> oid option \<Rightarrow> ftweet \<Rightarrow> bool" where
  "viewer_flags s viewer f =
     (case Tweet_findById (tweets s) (f_id f) of
        None \<Rightarrow> False
      | Some t \<Rightarrow>
          isLiked f = (case viewer of Some v \<Rightarrow> v \<in> set (likes t) | None \<Rightarrow> False) \<and>
          isRetweeted f = (case viewer of Some v \<Rightarrow> v \<in> set (retweets t) | None \<Rightarrow> False))"

text \<open>No notification of the database is sent by its own recipient.\<close>

definition no_self_notification :: "db \<Rightarrow> bool" where
  "no_self_notification s \<longleftrightarrow> (\<forall>n \<in> set (notifications s). sender n \<noteq> recipient n)"

section \<open>Example data\<close>

text \<open>
  Two accounts and a few posts, used to run the routes on concrete requests. In \<open>db2\<close>
  Alice follows Bob and has liked his post \<open>hello\<close>; \<open>re\<close> is her reply to it, \<open>grand\<close>
  Bob's reply to that reply, \<open>mine\<close> a post of her own.
\<close>

definition alice :: user_doc where
  "alice = \<lparr>u_id = 1, name = ''Alice'', username = ''alice'', email = ''alice@example.org'',
     password = ''pw1'', bio = [], location = [], website = [], profileImage = [],
     followers = [], following = [], u_createdAt = 0\<rparr>"

definition bob :: user_doc where
  "bob = \<lparr>u_id = 2, name = ''Bob'', username = ''bob'', email = ''bob@example.org'',
     password = ''pw2'', bio = [], location = [], website = [], profileImage = [],
     followers = [], following = [], u_createdAt = 0\<rparr>"

definition hello :: tweet_doc where
  "hello = \<lparr>tweet_id = 3, user = 2, content = ''hello'', likes = [], retweets = [],
     replyTo = None, retweetData = None, media = [], t_createdAt = 5, t_updatedAt = 5\<rparr>"

definition db0 :: db where
  "db0 = \<lparr>users = [alice, bob], tweets = [], notifications = [], next_oid = 3\<rparr>"

definition db1 :: db where
  "db1 = \<lparr>users = [alice, bob], tweets = [hello], notifications = [], next_oid = 4\<rparr>"

definition re :: tweet_doc where
  "re = \<lparr>tweet_id = 4, user = 1, content = ''Hi Bob'', likes = [], retweets = [],
     replyTo = Some 3, retweetData = None, media = [], t_createdAt = 6, t_updatedAt = 6\<rparr>"

definition grand :: tweet_doc where
  "grand = \<lparr>tweet_id = 5, user = 2, content = ''hi again'', likes = [], retweets = [],
     replyTo = Some 4, retweetData = None, media = [], t_createdAt = 7, t_updatedAt = 7\<rparr>"

definition mine :: tweet_doc where
  "mine = \<lparr>tweet_id = 6, user = 1, content = ''My first chirp'', likes = [], retweets = [],
     replyTo = None, retweetData = None, media = [], t_createdAt = 8, t_updatedAt = 8\<rparr>"

definition n_reply :: notification_doc where
  "n_reply = \<lparr>n_id = 7, recipient = 2, sender = 1, n_type = Reply, n_tweet = Some 4,
     n_read = False, message = ''Alice replied to your chirp'', n_createdAt = 6,
     n_updatedAt = 6\<rparr>"

definition n_grand :: notification_doc where
  "n_grand = \<lparr>n_id = 8, recipient = 1, sender = 2, n_type = Reply, n_tweet = Some 5,
     n_read = False, message = ''Bob replied to your chirp'', n_createdAt = 7,
     n_updatedAt = 7\<rparr>"

definition n_like :: notification_doc where
  "n_like = \<lparr>n_id = 9, recipient = 2, sender = 1, n_type = Like, n_tweet = Some 3,
     n_read = False, message = ''Alice liked your chirp'', n_createdAt = 9,
     n_updatedAt = 9\<rparr>"

definition db2 :: db where
  "db2 = \<lparr>users = [alice\<lparr>following := [2]\<rparr>, bob\<lparr>followers := [1]\<rparr>],
          tweets = [hello\<lparr>likes := [1], t_updatedAt := 9\<rparr>, re, grand, mine],
          notifications = [n_reply, n_grand, n_like], next_oid = 10\<rparr>"

text \<open>
  Carol has the id 10, written \<open>a\<close> in hexadecimal; \<open>cafe\<close> is a post of hers.
\<close>

definition carol :: user_doc where
  "carol = \<lparr>u_id = 10, name = ''Carol'', username = ''carol'', email = ''carol@example.org'',
     password = ''pw3'', bio = [], location = [], website = [], profileImage = [],
     followers = [], following = [], u_createdAt = 0\<rparr>"

definition cafe :: tweet_doc where
  "cafe = \<lparr>tweet_id = 11, user = 10, content = [CHR ''c'', CHR ''a'', CHR ''f'', CHR 0xE9],
     likes = [], retweets = [], replyTo = None, retweetData = None, media = [],
     t_createdAt = 3, t_updatedAt = 3\<rparr>"

definition db3 :: db where
  "db3 = \<lparr>users = [carol], tweets = [cafe], notifications = [], next_oid = 12\<rparr>"

section \<open>Facts about the persistence primitives\<close>

lemma User_findById_id: "User_findById us i = Some u \<Longrightarrow> u_id u = i"
  by (induction us) (auto simp: User_findById_def split: if_splits)

lemma Tweet_findById_id: "Tweet_findById ts i = Some t \<Longrightarrow> tweet_id t = i"
  by (induction ts) (auto simp: Tweet_findById_def split: if_splits)

lemma User_findById_save:
  "User_findById (User_save u us) i =
     (if i = u_id u then map_option (\<lambda>_. u) (User_findById us i) else User_findById us i)"
  by (induction us) (auto simp: User_findById_def User_save_def)

lemma Tweet_findById_save:
  "Tweet_findById (Tweet_save now t ts) i =
     (if i = tweet_id t then map_option (\<lambda>_. t\<lparr>t_updatedAt := now\<rparr>) (Tweet_findById ts i)
      else Tweet_findById ts i)"
  by (induction ts) (auto simp: Tweet_findById_def Tweet_save_def)

lemma Tweet_findById_distinct:
  "distinct (map tweet_id ts) \<Longrightarrow> t \<in> set ts \<Longrightarrow> Tweet_findById ts (tweet_id t) = Some t"
  by (induction ts) (auto simp: Tweet_findById_def)

lemma findOne_username_distinct:
  "distinct (map username us) \<Longrightarrow> u \<in> set us \<Longrightarrow>
   User_findOne_username us (username u) = Some u"
  by (induction us) (auto simp: User_findOne_username_def)

lemma protect_ok: "User_findById (users s) U = Some u \<Longrightarrow> protect s (Some U) = Inr u"
  by (simp add: protect_def)

text \<open>Reading the text of an ObjectId gives the ObjectId back.\<close>

declare hex_digits.simps [simp del]

lemma hex_val_char: "d < 16 \<Longrightarrow> hex_val (hex_char d) = Some d"
proof -
  assume "d < 16"
  then have "d = 0 \<or> d = 1 \<or> d = 2 \<or> d = 3 \<or> d = 4 \<or> d = 5 \<or> d = 6 \<or> d = 7 \<or> d = 8 \<or>
             d = 9 \<or> d = 10 \<or> d = 11 \<or> d = 12 \<or> d = 13 \<or> d = 14 \<or> d = 15"
    by arith
  then show ?thesis
    by (elim disjE) (simp_all add: hex_val_def hex_char_def)
qed

lemma hex_value_acc_append:
  "hex_value_acc a (xs @ ys) =
     (case hex_value_acc a xs of None \<Rightarrow> None | Some b \<Rightarrow> hex_value_acc b ys)"
  by (induction xs arbitrary: a) (auto split: option.splits)

lemma hex_value_digits: "hex_value_acc 0 (hex_digits n) = Some n"
proof (induction n rule: hex_digits.induct)
  case (1 n)
  show ?case
  proof (cases "n < 16")
    case True
    then show ?thesis by (subst hex_digits.simps) (simp add: hex_val_char)
  next
    case False
    then show ?thesis
      using 1 by (subst hex_digits.simps) (simp add: hex_value_acc_append hex_val_char)
  qed
qed

lemma hex_value_zeros:
  "hex_value_acc 0 (replicate k CHR ''0'' @ cs) = hex_value_acc 0 cs"
  by (induction k) (simp_all add: hex_val_def)

lemma hex_value_toString: "hex_value_acc 0 (ObjectId_toString i) = Some i"
  by (simp add: ObjectId_toString_def hex_value_zeros hex_value_digits)

lemma cast_toString_same:
  "ObjectId_cast p = Some B \<Longrightarrow> ObjectId_toString A = p \<Longrightarrow> A = B"
  using hex_value_toString [of A] by (auto simp: ObjectId_cast_def split: if_splits)

lemma length_hex_digits: "0 < k \<Longrightarrow> n < 16 ^ k \<Longrightarrow> length (hex_digits n) \<le> k"
proof (induction n arbitrary: k rule: hex_digits.induct)
  case (1 n)
  show ?case
  proof (cases "n < 16")
    case True
    then show ?thesis using "1.prems" by (subst hex_digits.simps) simp
  next
    case False
    obtain j where j: "k = Suc j" using "1.prems"(1) by (cases k) auto
    have "j \<noteq> 0" using False "1.prems"(2) j by (cases j) auto
    moreover have "n div 16 < 16 ^ j"
      using "1.prems"(2) j by (simp add: less_mult_imp_div_less mult.commute)
    ultimately have "length (hex_digits (n div 16)) \<le> j"
      using "1.IH" [OF False, of j] by simp
    then show ?thesis using False j by (subst hex_digits.simps) simp
  qed
qed

text \<open>Every ObjectId, a number below \<open>16 ^ 24\<close>, is the cast of its own text.\<close>

lemma cast_toString: "i < 16 ^ 24 \<Longrightarrow> ObjectId_cast (ObjectId_toString i) = Some i"
proof -
  assume "i < 16 ^ 24"
  then have "length (hex_digits i) \<le> 24" by (intro length_hex_digits) simp_all
  then have "length (ObjectId_toString i) = 24" by (simp add: ObjectId_toString_def)
  then show ?thesis by (simp add: ObjectId_cast_def hex_value_toString)
qed

lemma cast_bob: "ObjectId_cast ''000000000000000000000002'' = Some 2"
  by (simp add: ObjectId_cast_def hex_val_def)

lemma cast_carol_capital: "ObjectId_cast ''00000000000000000000000A'' = Some 10"
  by (simp add: ObjectId_cast_def hex_val_def)

lemma toString_carol: "ObjectId_toString 10 = ''00000000000000000000000a''"
  by (simp add: ObjectId_toString_def hex_digits.simps hex_char_def eval_nat_numeral)

text \<open>The documents of the examples, as the lookups find them.\<close>

lemma db0_alice: "User_findById (users db0) 1 = Some alice"
  by (simp add: db0_def User_findById_def alice_def)

lemma db0_bob: "User_findById (users db0) 2 = Some bob"
  by (simp add: db0_def User_findById_def alice_def bob_def)

lemma db1_alice: "User_findById (users db1) 1 = Some alice"
  by (simp add: db1_def User_findById_def alice_def)

lemma db1_hello: "Tweet_findById (tweets db1) 3 = Some hello"
  by (simp add: db1_def Tweet_findById_def hello_def)

lemma db2_alice: "User_findById (users db2) 1 = Some (alice\<lparr>following := [2]\<rparr>)"
  by (simp add: db2_def User_findById_def alice_def)

lemma db2_bob: "User_findById (users db2) 2 = Some (bob\<lparr>followers := [1]\<rparr>)"
  by (simp add: db2_def User_findById_def alice_def bob_def)

lemma db2_hello: "Tweet_findById (tweets db2) 3 = Some (hello\<lparr>likes := [1], t_updatedAt := 9\<rparr>)"
  by (simp add: db2_def Tweet_findById_def hello_def)

lemma db2_distinct: "distinct (map tweet_id (tweets db2))"
  by (simp add: db2_def hello_def re_def grand_def mine_def)

section \<open>The follow graph\<close>

text \<open>
  C1. For users \<open>A \<noteq> B\<close> that both exist, \<open>A\<close> not among the followers of \<open>B\<close>,
  and any text \<open>p\<close> of the id of \<open>B\<close> as the route parameter:
  \<open>follow\<close> succeeds and leaves \<open>A\<close> in the followers of \<open>B\<close> and \<open>B\<close> in the
  following of \<open>A\<close>; the \<open>unfollow\<close> after it succeeds and leaves neither. The followers
  of \<open>B\<close> are then the list they were before the follow, and so is the following of \<open>A\<close>
  when the two lists mirrored each other before (\<open>B\<close> was not in it).
\<close>

theorem follow_then_unfollow:
  assumes "A \<noteq> B"
    and "User_findById (users s) A = Some ua"
    and "User_findById (users s) B = Some ub"
    and "A \<notin> set (followers ub)"
    and "ObjectId_cast p = Some B"
  shows "\<exists>s1 s2 ua1 ub1 ua2 ub2.
           follow s now (Some A) p = (Inr ''User followed successfully'', s1) \<and>
           User_findById (users s1) A = Some ua1 \<and> User_findById (users s1) B = Some ub1 \<and>
           A \<in> set (followers ub1) \<and> B \<in> set (following ua1) \<and>
           unfollow s1 (Some A) B = (Inr ''User unfollowed successfully'', s2) \<and>
           User_findById (users s2) A = Some ua2 \<and> User_findById (users s2) B = Some ub2 \<and>
           A \<notin> set (followers ub2) \<and> B \<notin> set (following ua2) \<and>
           followers ub2 = followers ub \<and>
           following ua2 = filter (\<lambda>i. i \<noteq> B) (following ua) \<and>
           (B \<notin> set (following ua) \<longrightarrow> following ua2 = following ua)"
proof -
  have ia: "u_id ua = A" and ib: "u_id ub = B"
    using assms(2,3) by (auto dest: User_findById_id)
  define ub1 where "ub1 = ub\<lparr>followers := followers ub @ [A]\<rparr>"
  define ua1 where "ua1 = ua\<lparr>following := following ua @ [B]\<rparr>"
  define us1 where "us1 = User_save ua1 (User_save ub1 (users s))"
  define s1 where "s1 = Notification_create now B A Follow None
                          (name ua @ '' started following you'') (s\<lparr>users := us1\<rparr>)"
  have np: "ObjectId_toString A \<noteq> p"
    using assms(1,5) by (auto dest: cast_toString_same)
  have f: "follow s now (Some A) p = (Inr ''User followed successfully'', s1)"
    using assms ia ib np
    by (simp add: follow_def protect_def User_findById_save Let_def s1_def us1_def ua1_def ub1_def)
  have u1: "users s1 = us1" by (simp add: s1_def Notification_create_def)
  have a1: "User_findById (users s1) A = Some ua1"
    using assms ia ib by (simp add: u1 us1_def User_findById_save ua1_def ub1_def)
  have b1: "User_findById (users s1) B = Some ub1"
    using assms ia ib by (simp add: u1 us1_def User_findById_save ua1_def ub1_def)
  define ub2 where "ub2 = ub1\<lparr>followers := filter (\<lambda>i. i \<noteq> A) (followers ub1)\<rparr>"
  define ua2 where "ua2 = ua1\<lparr>following := filter (\<lambda>i. i \<noteq> B) (following ua1)\<rparr>"
  define s2 where "s2 = s1\<lparr>users := User_save ua2 (User_save ub2 (users s1))\<rparr>"
  have i1: "u_id ua1 = A" "u_id ub1 = B" using ia ib by (simp_all add: ua1_def ub1_def)
  have g: "unfollow s1 (Some A) B = (Inr ''User unfollowed successfully'', s2)"
    using a1 b1 i1 assms(1)
    by (simp add: unfollow_def protect_def User_findById_save Let_def s2_def ua2_def ub2_def
        ub1_def)
  have a2: "User_findById (users s2) A = Some ua2"
    using a1 b1 i1 assms(1) by (simp add: s2_def User_findById_save ua2_def ub2_def)
  have b2: "User_findById (users s2) B = Some ub2"
    using a1 b1 i1 assms(1) by (simp add: s2_def User_findById_save ua2_def ub2_def)
  have fl: "followers ub2 = followers ub"
    using assms(4) by (auto simp: ub2_def ub1_def filter_id_conv)
  have fg: "following ua2 = filter (\<lambda>i. i \<noteq> B) (following ua)"
    by (simp add: ua2_def ua1_def)
  have "A \<in> set (followers ub1)" "B \<in> set (following ua1)"
    by (simp_all add: ua1_def ub1_def)
  moreover have "A \<notin> set (followers ub2)" "B \<notin> set (following ua2)"
    by (simp_all add: ua2_def ub2_def)
  moreover have "B \<notin> set (following ua) \<longrightarrow> following ua2 = following ua"
    by (auto simp: fg filter_id_conv)
  ultimately show ?thesis using f g a1 b1 a2 b2 fl fg by blast
qed

theorem follow_then_unfollow_witness:
  "(1::nat) \<noteq> 2 \<and> User_findById (users db0) 1 = Some alice \<and>
   User_findById (users db0) 2 = Some bob \<and> 1 \<notin> set (followers bob) \<and>
   ObjectId_cast ''000000000000000000000002'' = Some 2 \<and>
   (\<exists>s1 s2 ua1 ub1 ua2 ub2.
           follow db0 10 (Some 1) ''000000000000000000000002'' =
             (Inr ''User followed successfully'', s1) \<and>
           User_findById (users s1) 1 = Some ua1 \<and> User_findById (users s1) 2 = Some ub1 \<and>
           1 \<in> set (followers ub1) \<and> 2 \<in> set (following ua1) \<and>
           unfollow s1 (Some 1) 2 = (Inr ''User unfollowed successfully'', s2) \<and>
           User_findById (users s2) 1 = Some ua2 \<and> User_findById (users s2) 2 = Some ub2 \<and>
           1 \<notin> set (followers ub2) \<and> 2 \<notin> set (following ua2) \<and>
           followers ub2 = followers bob \<and>
           following ua2 = filter (\<lambda>i. i \<noteq> 2) (following alice) \<and>
           (2 \<notin> set (following alice) \<longrightarrow> following ua2 = following alice))"
proof -
  have h1: "(1::nat) \<noteq> 2" by simp
  have h4: "1 \<notin> set (followers bob)" by (simp add: bob_def)
  from follow_then_unfollow [OF h1 db0_alice db0_bob h4 cast_bob, of 10]
    h1 db0_alice db0_bob h4 cast_bob
  show ?thesis by blast
qed

section \<open>Likes\<close>

text \<open>
  C6. For a user \<open>U\<close> and a post \<open>P\<close> that \<open>U\<close> has not liked, \<open>like\<close> succeeds and
  appends \<open>U\<close> to the likes of \<open>P\<close>, the following \<open>unlike\<close> succeeds, and the likes of
  \<open>P\<close> are then the list they were before the like.
\<close>

theorem like_then_unlike:
  assumes "User_findById (users s) U = Some u"
    and "Tweet_findById (tweets s) P = Some t"
    and "U \<notin> set (likes t)"
  shows "\<exists>s1 s2 t1 t2.
           like s now1 (Some U) P = (Inr ''Tweet liked successfully'', s1) \<and>
           Tweet_findById (tweets s1) P = Some t1 \<and> likes t1 = likes t @ [U] \<and>
           unlike s1 now2 (Some U) P = (Inr ''Tweet unliked successfully'', s2) \<and>
           Tweet_findById (tweets s2) P = Some t2 \<and> likes t2 = likes t"
proof -
  have iu: "u_id u = U" using assms(1) by (rule User_findById_id)
  have it: "tweet_id t = P" using assms(2) by (rule Tweet_findById_id)
  define t1 where "t1 = t\<lparr>likes := likes t @ [U], t_updatedAt := now1\<rparr>"
  obtain s1 where l: "like s now1 (Some U) P = (Inr ''Tweet liked successfully'', s1)"
    and ts1: "tweets s1 = Tweet_save now1 (t\<lparr>likes := likes t @ [U]\<rparr>) (tweets s)"
    and us1: "users s1 = users s"
    using assms iu
    by (simp add: like_def protect_def Let_def Notification_create_def)
  have f1: "Tweet_findById (tweets s1) P = Some t1"
    using assms(2) it by (simp add: ts1 Tweet_findById_save t1_def)
  define t2 where "t2 = t1\<lparr>likes := filter (\<lambda>i. i \<noteq> U) (likes t1), t_updatedAt := now2\<rparr>"
  define s2 where "s2 = s1\<lparr>tweets := Tweet_save now2
                     (t1\<lparr>likes := filter (\<lambda>i. i \<noteq> U) (likes t1)\<rparr>) (tweets s1)\<rparr>"
  have m: "U \<in> set (likes t1)" by (simp add: t1_def)
  have ul: "unlike s1 now2 (Some U) P = (Inr ''Tweet unliked successfully'', s2)"
    using assms(1) iu f1 m by (simp add: unlike_def protect_def us1 Let_def s2_def)
  have f2: "Tweet_findById (tweets s2) P = Some t2"
    using f1 it by (simp add: s2_def Tweet_findById_save t1_def t2_def)
  have "likes t2 = likes t"
    using assms(3) by (auto simp: t2_def t1_def filter_id_conv)
  moreover have "likes t1 = likes t @ [U]" by (simp add: t1_def)
  ultimately show ?thesis using l f1 ul f2 by blast
qed

theorem like_then_unlike_witness:
  "User_findById (users db1) 1 = Some alice \<and> Tweet_findById (tweets db1) 3 = Some hello \<and>
   1 \<notin> set (likes hello) \<and>
   (\<exists>s1 s2 t1 t2.
           like db1 6 (Some 1) 3 = (Inr ''Tweet liked successfully'', s1) \<and>
           Tweet_findById (tweets s1) 3 = Some t1 \<and> likes t1 = likes hello @ [1] \<and>
           unlike s1 7 (Some 1) 3 = (Inr ''Tweet unliked successfully'', s2) \<and>
           Tweet_findById (tweets s2) 3 = Some t2 \<and> likes t2 = likes hello)"
proof -
  have h3: "1 \<notin> set (likes hello)" by (simp add: hello_def)
  from like_then_unlike [OF db1_alice db1_hello h3, of 6 7] db1_alice db1_hello h3
  show ?thesis by blast
qed

section \<open>Deleting a tweet\<close>

text \<open>
  C3. For an authenticated requester \<open>U\<close>: \<open>deleteTweet\<close> answers 404 "Tweet not found"
  when no post has the id \<open>P\<close>, and 401 "User not authorized" when the post is not by
  \<open>U\<close>, the database unchanged in both cases. For the author it succeeds: the posts left are
  those whose id is not \<open>P\<close> and whose \<open>replyTo\<close> is not \<open>P\<close>, the notifications left
  those whose tweet is not \<open>P\<close>. A post \<open>g\<close> replying to a direct reply \<open>r\<close> of \<open>P\<close>
  stays, while \<open>r\<close> is gone.
\<close>

theorem deleteTweet_cascade:
  assumes "User_findById (users s) U = Some u"
  shows "(Tweet_findById (tweets s) P = None \<longrightarrow>
            deleteTweet s (Some U) P = (Inl (404, ''Tweet not found''), s)) \<and>
         (\<forall>t. Tweet_findById (tweets s) P = Some t \<and> user t \<noteq> U \<longrightarrow>
            deleteTweet s (Some U) P = (Inl (401, ''User not authorized''), s)) \<and>
         (\<forall>t. Tweet_findById (tweets s) P = Some t \<and> user t = U \<longrightarrow>
            (\<exists>s'. deleteTweet s (Some U) P = (Inr ''Tweet deleted successfully'', s') \<and>
                  tweets s' = filter (\<lambda>d. tweet_id d \<noteq> P \<and> replyTo d \<noteq> Some P) (tweets s) \<and>
                  notifications s' = filter (\<lambda>n. n_tweet n \<noteq> Some P) (notifications s) \<and>
                  users s' = users s \<and>
                  (\<forall>r g. r \<in> set (tweets s) \<and> replyTo r = Some P \<and> tweet_id r \<noteq> P \<and>
                         g \<in> set (tweets s) \<and> replyTo g = Some (tweet_id r) \<and> tweet_id g \<noteq> P \<longrightarrow>
                         r \<notin> set (tweets s') \<and> g \<in> set (tweets s'))))"
proof -
  have iu: "u_id u = U" using assms by (rule User_findById_id)
  have p: "protect s (Some U) = Inr u" using assms by (rule protect_ok)
  have a: "Tweet_findById (tweets s) P = None \<longrightarrow>
            deleteTweet s (Some U) P = (Inl (404, ''Tweet not found''), s)"
    by (simp add: deleteTweet_def p)
  have b: "\<forall>t. Tweet_findById (tweets s) P = Some t \<and> user t \<noteq> U \<longrightarrow>
            deleteTweet s (Some U) P = (Inl (401, ''User not authorized''), s)"
    by (simp add: deleteTweet_def p iu)
  have c: "\<exists>s'. deleteTweet s (Some U) P = (Inr ''Tweet deleted successfully'', s') \<and>
                  tweets s' = filter (\<lambda>d. tweet_id d \<noteq> P \<and> replyTo d \<noteq> Some P) (tweets s) \<and>
                  notifications s' = filter (\<lambda>n. n_tweet n \<noteq> Some P) (notifications s) \<and>
                  users s' = users s \<and>
                  (\<forall>r g. r \<in> set (tweets s) \<and> replyTo r = Some P \<and> tweet_id r \<noteq> P \<and>
                         g \<in> set (tweets s) \<and> replyTo g = Some (tweet_id r) \<and> tweet_id g \<noteq> P \<longrightarrow>
                         r \<notin> set (tweets s') \<and> g \<in> set (tweets s'))"
    if t: "Tweet_findById (tweets s) P = Some t" "user t = U" for t
  proof -
    have it: "tweet_id t = P" using t(1) by (rule Tweet_findById_id)
    have f: "filter (\<lambda>d. replyTo d \<noteq> Some P) (filter (\<lambda>d. tweet_id d \<noteq> P) (tweets s)) =
             filter (\<lambda>d. tweet_id d \<noteq> P \<and> replyTo d \<noteq> Some P) (tweets s)"
      by (simp add: conj_commute)
    show ?thesis
      using t it iu by (simp add: deleteTweet_def p Let_def deleteMany_def f)
  qed
  show ?thesis using a b c by blast
qed

theorem deleteTweet_cascade_witness:
  "User_findById (users db2) 2 = Some (bob\<lparr>followers := [1]\<rparr>) \<and>
   Tweet_findById (tweets db2) 3 = Some (hello\<lparr>likes := [1], t_updatedAt := 9\<rparr>) \<and>
   user (hello\<lparr>likes := [1], t_updatedAt := 9\<rparr>) = 2 \<and>
   re \<in> set (tweets db2) \<and> replyTo re = Some 3 \<and> tweet_id re \<noteq> 3 \<and>
   grand \<in> set (tweets db2) \<and> replyTo grand = Some (tweet_id re) \<and> tweet_id grand \<noteq> 3 \<and>
   (\<exists>s'. deleteTweet db2 (Some 2) 3 = (Inr ''Tweet deleted successfully'', s') \<and>
         tweets s' = [grand, mine] \<and> notifications s' = [n_reply, n_grand] \<and>
         re \<notin> set (tweets s') \<and> grand \<in> set (tweets s')) \<and>
   Tweet_findById (tweets db2) 99 = None \<and>
   deleteTweet db2 (Some 2) 99 = (Inl (404, ''Tweet not found''), db2) \<and>
   User_findById (users db2) 1 = Some (alice\<lparr>following := [2]\<rparr>) \<and>
   user (hello\<lparr>likes := [1], t_updatedAt := 9\<rparr>) \<noteq> 1 \<and>
   deleteTweet db2 (Some 1) 3 = (Inl (401, ''User not authorized''), db2)"
proof -
  have h1: "user (hello\<lparr>likes := [1], t_updatedAt := 9\<rparr>) = 2" by (simp add: hello_def)
  have h2: "re \<in> set (tweets db2)" "replyTo re = Some 3" "tweet_id re \<noteq> 3"
    "grand \<in> set (tweets db2)" "replyTo grand = Some (tweet_id re)" "tweet_id grand \<noteq> 3"
    by (simp_all add: db2_def re_def grand_def)
  have h3: "Tweet_findById (tweets db2) 99 = None"
    by (simp add: db2_def Tweet_findById_def hello_def re_def grand_def mine_def)
  have h4: "user (hello\<lparr>likes := [1], t_updatedAt := 9\<rparr>) \<noteq> 1" by (simp add: hello_def)
  have e1: "filter (\<lambda>d. tweet_id d \<noteq> 3 \<and> replyTo d \<noteq> Some 3) (tweets db2) = [grand, mine]"
    by (simp add: db2_def hello_def re_def grand_def mine_def)
  have e2: "filter (\<lambda>n. n_tweet n \<noteq> Some 3) (notifications db2) = [n_reply, n_grand]"
    by (simp add: db2_def n_reply_def n_grand_def n_like_def)
  from deleteTweet_cascade [OF db2_bob, of 3] db2_hello h1 h2
  have "\<exists>s'. deleteTweet db2 (Some 2) 3 = (Inr ''Tweet deleted successfully'', s') \<and>
         tweets s' = [grand, mine] \<and> notifications s' = [n_reply, n_grand] \<and>
         re \<notin> set (tweets s') \<and> grand \<in> set (tweets s')"
    unfolding e1 e2 by blast
  moreover from deleteTweet_cascade [OF db2_bob, of 99] h3
  have "deleteTweet db2 (Some 2) 99 = (Inl (404, ''Tweet not found''), db2)" by blast
  moreover from deleteTweet_cascade [OF db2_alice, of 3] db2_hello h4
  have "deleteTweet db2 (Some 1) 3 = (Inl (401, ''User not authorized''), db2)" by blast
  ultimately show ?thesis using db2_bob db2_alice db2_hello h1 h2 h3 h4 by blast
qed

text \<open>
  C10. After the author \<open>U\<close> has deleted the post \<open>P\<close>, a notification \<open>n\<close> whose tweet is
  a direct reply \<open>R\<close> of \<open>P\<close> is still in the collection, as it was, although \<open>R\<close> is gone:
  the notifications left are exactly those whose tweet is not \<open>P\<close>.
\<close>

theorem deleteTweet_keeps_reply_notifications:
  assumes "User_findById (users s) U = Some u"
    and "Tweet_findById (tweets s) P = Some t" and "user t = U"
    and "R \<in> set (tweets s)" and "replyTo R = Some P" and "tweet_id R \<noteq> P"
    and "n \<in> set (notifications s)" and "n_tweet n = Some (tweet_id R)"
  shows "\<exists>s'. deleteTweet s (Some U) P = (Inr ''Tweet deleted successfully'', s') \<and>
              R \<notin> set (tweets s') \<and> n \<in> set (notifications s') \<and>
              (\<forall>m. m \<in> set (notifications s') \<longleftrightarrow>
                     m \<in> set (notifications s) \<and> n_tweet m \<noteq> Some P)"
proof -
  have iu: "u_id u = U" using assms(1) by (rule User_findById_id)
  have it: "tweet_id t = P" using assms(2) by (rule Tweet_findById_id)
  have p: "protect s (Some U) = Inr u" using assms(1) by (rule protect_ok)
  show ?thesis
    using assms(2-) iu it by (auto simp: deleteTweet_def p Let_def deleteMany_def)
qed

theorem deleteTweet_keeps_reply_notifications_witness:
  "User_findById (users db2) 2 = Some (bob\<lparr>followers := [1]\<rparr>) \<and>
   Tweet_findById (tweets db2) 3 = Some (hello\<lparr>likes := [1], t_updatedAt := 9\<rparr>) \<and>
   user (hello\<lparr>likes := [1], t_updatedAt := 9\<rparr>) = 2 \<and>
   re \<in> set (tweets db2) \<and> replyTo re = Some 3 \<and> tweet_id re \<noteq> 3 \<and>
   n_reply \<in> set (notifications db2) \<and> n_tweet n_reply = Some (tweet_id re) \<and>
   (\<exists>s'. deleteTweet db2 (Some 2) 3 = (Inr ''Tweet deleted successfully'', s') \<and>
         re \<notin> set (tweets s') \<and> n_reply \<in> set (notifications s') \<and>
         (\<forall>m. m \<in> set (notifications s') \<longleftrightarrow>
                m \<in> set (notifications db2) \<and> n_tweet m \<noteq> Some 3))"
proof -
  have h1: "user (hello\<lparr>likes := [1], t_updatedAt := 9\<rparr>) = 2" by (simp add: hello_def)
  have h2: "re \<in> set (tweets db2)" and h3: "replyTo re = Some 3" and h4: "tweet_id re \<noteq> 3"
    by (simp_all add: db2_def re_def)
  have h5: "n_reply \<in> set (notifications db2)" and h6: "n_tweet n_reply = Some (tweet_id re)"
    by (simp_all add: db2_def n_reply_def re_def)
  from deleteTweet_keeps_reply_notifications [OF db2_bob db2_hello h1 h2 h3 h4 h5 h6]
    db2_bob db2_hello h1 h2 h3 h4 h5 h6
  show ?thesis by blast
qed

section \<open>Profiles\<close>

text \<open>
  C9. For every user \<open>u\<close> of the database (usernames being unique), the profile looked
  up by the username of \<open>u\<close>, with a viewer or without, is a payload whose key \<open>email\<close>
  holds the email address of \<open>u\<close>, next to the id, the name and the username.
\<close>

theorem getProfile_email:
  assumes "u \<in> set (users s)" and "distinct (map username (users s))"
  shows "\<exists>p. getProfile s req_user (username u) = Inr p \<and>
             map_of p ''email'' = Some (JString (email u)) \<and>
             map_of p ''_id'' = Some (JObjectId (u_id u)) \<and>
             map_of p ''name'' = Some (JString (name u)) \<and>
             map_of p ''username'' = Some (JString (username u))"
proof -
  have "User_findOne_username (users s) (username u) = Some u"
    using assms by (simp add: findOne_username_distinct)
  then show ?thesis
    by (cases req_user) (simp_all add: getProfile_def Let_def)
qed

theorem getProfile_email_witness:
  "alice \<in> set (users db0) \<and> distinct (map username (users db0)) \<and>
   (\<exists>p. getProfile db0 None ''alice'' = Inr p \<and>
        map_of p ''email'' = Some (JString ''alice@example.org'')) \<and>
   (\<exists>p. getProfile db0 (Some bob) ''alice'' = Inr p \<and>
        map_of p ''email'' = Some (JString ''alice@example.org''))"
proof -
  have h1: "alice \<in> set (users db0)" by (simp add: db0_def)
  have h2: "distinct (map username (users db0))" by (simp add: db0_def alice_def bob_def)
  have n: "username alice = ''alice''" and e: "email alice = ''alice@example.org''"
    by (simp_all add: alice_def)
  from getProfile_email [OF h1 h2, of None] getProfile_email [OF h1 h2, of "Some bob"] h1 h2
  show ?thesis unfolding n e by blast
qed

section \<open>Creating a tweet\<close>

lemma dropWhile_spaces:
  "dropWhile is_space (replicate n CHR '' '' @ cs) = dropWhile is_space cs"
  by (induction n) (simp_all add: is_space_def)

text \<open>
  C4, as the handler has it. For an authenticated author: \<open>createTweet\<close> answers 400
  "Tweet content is required" exactly when the content is missing or empty after trim, and
  400 "Tweet cannot exceed 280 characters" exactly when the content is not empty after trim
  and has more than 280 characters as it was sent, before any trim. A content that is not
  empty after trim and has at most 280 characters as sent is stored as sent, when it names
  no parent or a parent that exists.
\<close>

theorem createTweet_validation:
  assumes "User_findById (users s) U = Some u"
  shows "(fst (createTweet s now (Some U) c r) = Inl (400, ''Tweet content is required'') \<longleftrightarrow>
            (c = None \<or> (\<exists>cs. c = Some cs \<and> trim cs = []))) \<and>
         (fst (createTweet s now (Some U) c r) = Inl (400, ''Tweet cannot exceed 280 characters'') \<longleftrightarrow>
            (\<exists>cs. c = Some cs \<and> trim cs \<noteq> [] \<and> length cs > 280)) \<and>
         (\<forall>cs. c = Some cs \<and> trim cs \<noteq> [] \<and> length cs \<le> 280 \<and>
               (r = None \<or> (\<exists>p. r = Some p \<and> Tweet_findById (tweets s) p \<noteq> None)) \<longrightarrow>
            (\<exists>f s'. createTweet s now (Some U) c r = (Inr f, s') \<and> f_content f = cs \<and>
                    (\<exists>t \<in> set (tweets s'). content t = cs \<and> user t = U \<and> replyTo t = r)))"
proof -
  have iu: "u_id u = U" using assms by (rule User_findById_id)
  have p: "protect s (Some U) = Inr u" using assms by (rule protect_ok)
  have e: "trim [] = []" by (simp add: trim_def)
  show ?thesis
  proof (cases c)
    case None
    then show ?thesis by (simp add: createTweet_def p)
  next
    case (Some cs)
    show ?thesis
    proof (cases "trim cs = []")
      case True
      then show ?thesis using Some by (simp add: createTweet_def p)
    next
      case False
      then have ne: "cs \<noteq> []" using e by auto
      show ?thesis
      proof (cases "length cs > 280")
        case True
        then show ?thesis using Some False ne by (simp add: createTweet_def p)
      next
        case False
        show ?thesis
          using Some \<open>trim cs \<noteq> []\<close> ne False iu
          by (auto simp: createTweet_def p Let_def Notification_create_def
              split: option.splits)
      qed
    qed
  qed
qed

theorem createTweet_validation_witness:
  "User_findById (users db0) 1 = Some alice \<and>
   trim ''hello world'' \<noteq> [] \<and> length ''hello world'' \<le> 280 \<and>
   fst (createTweet db0 10 (Some 1) (Some ''hello world'') None) \<noteq>
     Inl (400, ''Tweet content is required'') \<and>
   fst (createTweet db0 10 (Some 1) (Some ''hello world'') None) \<noteq>
     Inl (400, ''Tweet cannot exceed 280 characters'') \<and>
   (\<exists>f s'. createTweet db0 10 (Some 1) (Some ''hello world'') None = (Inr f, s') \<and>
       f_content f = ''hello world'' \<and>
       (\<exists>t \<in> set (tweets s'). content t = ''hello world'' \<and> user t = 1 \<and> replyTo t = None))"
proof -
  have h2: "trim ''hello world'' \<noteq> []" by (simp add: trim_def is_space_def)
  have h3: "length ''hello world'' \<le> 280" by simp
  from createTweet_validation [OF db0_alice, of 10 "Some ''hello world''" None] db0_alice h2 h3
  show ?thesis by auto
qed

text \<open>
  The letter a followed by 280 spaces has one character after trim, and is refused as too
  long.
\<close>

theorem createTweet_trim_counterexample:
  "length (trim (CHR ''a'' # replicate 280 CHR '' '')) = 1 \<and>
   createTweet db0 10 (Some 1) (Some (CHR ''a'' # replicate 280 CHR '' '')) None =
     (Inl (400, ''Tweet cannot exceed 280 characters''), db0)"
proof -
  have "trim (CHR ''a'' # replicate 280 CHR '' '') = ''a''"
    by (simp add: trim_def dropWhile_spaces) (simp add: is_space_def)
  then show ?thesis
    by (simp add: createTweet_def protect_def db0_def User_findById_def alice_def)
qed

section \<open>Notifications to oneself\<close>

text \<open>
  The routes other than \<open>follow\<close> keep the database free of notifications whose sender
  is their recipient: like, retweet and reply create a notification only for a post of
  another author, the remaining routes create none.
\<close>

lemma nsn_create:
  "no_self_notification s \<Longrightarrow> sndr \<noteq> rcpt \<Longrightarrow>
   no_self_notification (Notification_create now rcpt sndr ty tw msg s)"
  by (auto simp: no_self_notification_def Notification_create_def)

lemma nsn_users [simp]: "no_self_notification (s\<lparr>users := us\<rparr>) = no_self_notification s"
  by (simp add: no_self_notification_def)

lemma nsn_tweets [simp]: "no_self_notification (s\<lparr>tweets := ts\<rparr>) = no_self_notification s"
  by (simp add: no_self_notification_def)

lemma nsn_next_oid [simp]: "no_self_notification (s\<lparr>next_oid := k\<rparr>) = no_self_notification s"
  by (simp add: no_self_notification_def)

lemma nsn_unfollow:
  "no_self_notification s \<Longrightarrow> no_self_notification (snd (unfollow s token pid))"
  by (auto simp: unfollow_def Let_def split: sum.splits option.splits)

lemma nsn_updateProfile:
  "no_self_notification s \<Longrightarrow> no_self_notification (snd (updateProfile s token n b l w i))"
  by (auto simp: updateProfile_def Let_def split: sum.splits option.splits)

lemma nsn_like:
  "no_self_notification s \<Longrightarrow> no_self_notification (snd (like s now token pid))"
  by (auto simp: like_def Let_def split: sum.splits option.splits intro!: nsn_create)

lemma nsn_unlike:
  "no_self_notification s \<Longrightarrow> no_self_notification (snd (unlike s now token pid))"
  by (auto simp: unlike_def Let_def split: sum.splits option.splits)

lemma nsn_retweet:
  "no_self_notification s \<Longrightarrow> no_self_notification (snd (retweet s now token pid))"
  by (auto simp: retweet_def Let_def split: sum.splits option.splits intro!: nsn_create)

lemma nsn_unretweet:
  "no_self_notification s \<Longrightarrow> no_self_notification (snd (unretweet s now token pid))"
  by (auto simp: unretweet_def Let_def split: sum.splits option.splits)

lemma nsn_createTweet:
  "no_self_notification s \<Longrightarrow> no_self_notification (snd (createTweet s now token c r))"
  by (auto simp: createTweet_def Let_def split: sum.splits option.splits intro!: nsn_create)

lemma nsn_deleteTweet:
  "no_self_notification s \<Longrightarrow> no_self_notification (snd (deleteTweet s token pid))"
  by (auto simp: deleteTweet_def Let_def deleteMany_def no_self_notification_def
      split: sum.splits option.splits)

lemma nsn_markRead:
  "no_self_notification s \<Longrightarrow> no_self_notification (snd (markRead s now token nid))"
proof (cases "Notification_findById (notifications s) nid")
  case None
  then show "no_self_notification s \<Longrightarrow> ?thesis"
    by (auto simp: markRead_def split: sum.splits)
next
  case (Some n)
  then have "n \<in> set (notifications s)"
    by (auto simp: Notification_findById_def find_Some_iff)
  then show "no_self_notification s \<Longrightarrow> ?thesis" using Some
    by (auto simp: markRead_def Notification_save_def no_self_notification_def
        split: sum.splits if_splits)
qed

lemma nsn_markAllRead:
  "no_self_notification s \<Longrightarrow> no_self_notification (snd (markAllRead s now token))"
  by (auto simp: markAllRead_def no_self_notification_def split: sum.splits if_splits)

text \<open>
  \<open>follow\<close> refuses the requester's own id when the parameter is the text \<open>toString\<close>
  gives, and then only.
\<close>

lemma follow_self_canonical: "\<exists>e. follow s now (Some U) (ObjectId_toString U) = (Inl e, s)"
proof (cases "User_findById (users s) U")
  case None
  then show ?thesis by (simp add: follow_def protect_def)
next
  case (Some u)
  then have "u_id u = U" by (rule User_findById_id)
  then show ?thesis
    using Some by (auto simp: follow_def protect_def split: option.splits)
qed

text \<open>
  C8. The invariant fails on the handler of \<open>follow\<close>. Carol's id is written with the
  digit \<open>a\<close>; her request to follow the same id written with a capital \<open>A\<close> finds her own
  account, passes the self-follow test, which compares the text of her id with the
  parameter as sent, and stores a follow notification whose sender and recipient are both
  Carol, in a database that is reachable.
\<close>

theorem follow_own_id_capital:
  "ObjectId_toString 10 = ''00000000000000000000000a'' \<and>
   ObjectId_cast ''00000000000000000000000A'' = Some 10 \<and>
   follow db3 20 (Some 10) ''00000000000000000000000A'' =
     (Inr ''User followed successfully'',
      db3\<lparr>users := [carol\<lparr>followers := [10], following := [10]\<rparr>],
          notifications :=
            [\<lparr>n_id = 12, recipient = 10, sender = 10, n_type = Follow, n_tweet = None,
              n_read = False, message = ''Carol started following you'', n_createdAt = 20,
              n_updatedAt = 20\<rparr>],
          next_oid := 13\<rparr>) \<and>
   reachable (snd (follow db3 20 (Some 10) ''00000000000000000000000A''))"
proof -
  have "reachable db3" by (rule r_init) (simp add: db3_def)
  then have r: "reachable (snd (follow db3 20 (Some 10) ''00000000000000000000000A''))"
    by (rule r_follow)
  have f: "follow db3 20 (Some 10) ''00000000000000000000000A'' =
     (Inr ''User followed successfully'',
      db3\<lparr>users := [carol\<lparr>followers := [10], following := [10]\<rparr>],
          notifications :=
            [\<lparr>n_id = 12, recipient = 10, sender = 10, n_type = Follow, n_tweet = None,
              n_read = False, message = ''Carol started following you'', n_createdAt = 20,
              n_updatedAt = 20\<rparr>],
          next_oid := 13\<rparr>)"
    by (simp add: follow_def protect_def cast_carol_capital toString_carol db3_def
        User_findById_def User_save_def carol_def Let_def Notification_create_def)
  from toString_carol cast_carol_capital f r show ?thesis by (intro conjI)
qed

section \<open>Feeds\<close>

declare replyCounts.simps [simp del]

text \<open>The loop over the entries sets the reply count of each of them.\<close>

lemma replyCounts_eq:
  "replyCounts ts i fs =
     take i fs @
     map (\<lambda>f. f\<lparr>replyCount := countDocuments (\<lambda>d. replyTo d = Some (f_id f)) ts\<rparr>) (drop i fs)"
proof (induction ts i fs rule: replyCounts.induct)
  case (1 ts i fs)
  let ?g = "\<lambda>f. f\<lparr>replyCount := countDocuments (\<lambda>d. replyTo d = Some (f_id f)) ts\<rparr>"
  show ?case
  proof (cases "i < length fs")
    case True
    have "replyCounts ts i fs = replyCounts ts (Suc i) (fs[i := ?g (fs ! i)])"
      using True by (subst replyCounts.simps) simp
    also have "\<dots> = take (Suc i) (fs[i := ?g (fs ! i)]) @
                     map ?g (drop (Suc i) (fs[i := ?g (fs ! i)]))"
      using True by (rule "1.IH")
    also have "take (Suc i) (fs[i := ?g (fs ! i)]) = take i fs @ [?g (fs ! i)]"
      using True by (simp add: take_Suc_conv_app_nth)
    also have "drop (Suc i) (fs[i := ?g (fs ! i)]) = drop (Suc i) fs"
      by simp
    also have "(take i fs @ [?g (fs ! i)]) @ map ?g (drop (Suc i) fs) =
               take i fs @ map ?g (drop i fs)"
      using True by (simp add: Cons_nth_drop_Suc [symmetric])
    finally show ?thesis .
  next
    case False
    then show ?thesis by (subst replyCounts.simps) simp
  qed
qed

lemma decorated_format:
  "decorated s (map_option u_id ru)
     ((formatTweet (users s) ru t)
        \<lparr>replyCount := countDocuments (\<lambda>d. replyTo d = Some (tweet_id t)) (tweets s)\<rparr>) t"
  by (cases ru) (simp_all add: decorated_def formatTweet_def countDocuments_def)

lemma feed_decorated:
  "list_all2 (decorated s (map_option u_id ru))
     (replyCounts (tweets s) 0 (map (formatTweet (users s) ru) sel)) sel"
proof -
  have "decorated s (map_option u_id ru)
          ((formatTweet (users s) ru t)
             \<lparr>replyCount := countDocuments
                (\<lambda>d. replyTo d = Some (f_id (formatTweet (users s) ru t))) (tweets s)\<rparr>) t" for t
    using decorated_format [of s ru t] by (simp add: formatTweet_def)
  then show ?thesis
    by (simp add: replyCounts_eq list_all2_map1 list.rel_refl)
qed

lemma replies_decorated:
  "list_all2 (decorated s (map_option u_id ru))
     (replyCounts (tweets s) 0
        (map (\<lambda>reply. (formatTweet (users s) ru reply)\<lparr>f_replyTo := Some pid\<rparr>) sel)) sel"
proof -
  have "decorated s (map_option u_id ru)
          ((formatTweet (users s) ru t)
             \<lparr>f_replyTo := Some pid,
              replyCount := countDocuments
                (\<lambda>d. replyTo d = Some (f_id (formatTweet (users s) ru t))) (tweets s)\<rparr>) t" for t
    using decorated_format [of s ru t] by (simp add: formatTweet_def decorated_def)
  then show ?thesis
    by (simp add: replyCounts_eq list_all2_map1 list.rel_refl)
qed

text \<open>Sorting and cutting give a feed of the newest posts.\<close>

lemma sorted_desc: "sorted_wrt (\<lambda>a b. t_createdAt a \<ge> t_createdAt b) (sort_createdAt_desc ts)"
proof -
  have "sorted (map (\<lambda>t. - int (t_createdAt t)) (sort_createdAt_desc ts))"
    by (simp add: sort_createdAt_desc_def)
  then show ?thesis by (simp add: sorted_map)
qed

lemma newest_first_capped_limit:
  "newest_first_capped n matching (limit n (sort_createdAt_desc matching))"
proof -
  let ?xs = "sort_createdAt_desc matching"
  have m: "mset ?xs = mset matching" by (simp add: sort_createdAt_desc_def)
  have split: "mset (take n ?xs) + mset (drop n ?xs) = mset ?xs"
    by (metis append_take_drop_id mset_append)
  have s: "sorted_wrt (\<lambda>a b. t_createdAt a \<ge> t_createdAt b) (take n ?xs @ drop n ?xs)"
    by (simp add: sorted_desc)
  have s1: "sorted_wrt (\<lambda>a b. t_createdAt a \<ge> t_createdAt b) (take n ?xs)"
    and s2: "\<forall>y \<in> set (take n ?xs). \<forall>x \<in> set (drop n ?xs). t_createdAt x \<le> t_createdAt y"
    using s unfolding sorted_wrt_append by blast+
  have 1: "length (limit n ?xs) = min n (length matching)"
    by (simp add: limit_def sort_createdAt_desc_def min.commute)
  have 2: "sorted_wrt (\<lambda>a b. t_createdAt a \<ge> t_createdAt b) (limit n ?xs)"
    using s1 by (simp add: limit_def)
  have 3: "mset (limit n ?xs) \<subseteq># mset matching"
    using split m by (metis limit_def mset_subset_eq_add_left)
  have d: "mset matching - mset (limit n ?xs) = mset (drop n ?xs)"
    using split m by (metis limit_def add_diff_cancel_left')
  have 4: "\<forall>x \<in># mset matching - mset (limit n ?xs). \<forall>y \<in> set (limit n ?xs).
             t_createdAt x \<le> t_createdAt y"
    unfolding d using s2 by (auto simp: limit_def)
  show ?thesis using 1 2 3 4 by (simp add: newest_first_capped_def)
qed

text \<open>When no more than \<open>n\<close> posts match, the feed holds exactly the matching posts.\<close>

lemma newest_first_capped_all:
  "newest_first_capped n matching sel \<Longrightarrow> length matching \<le> n \<Longrightarrow> mset sel = mset matching"
  by (metis (no_types, lifting) newest_first_capped_def min.absorb2 size_mset
      subset_mset.antisym_conv2 mset_subset_size less_irrefl)

lemma set_selection: "set (limit n (sort_createdAt_desc (filter p ts))) \<subseteq> set ts"
  by (auto simp: limit_def sort_createdAt_desc_def dest: in_set_takeD)

lemma set_selection_all: "set (sort_createdAt_desc (filter p ts)) \<subseteq> set ts"
  by (auto simp: sort_createdAt_desc_def)

lemma flags_of_decorated:
  assumes "list_all2 (decorated s v) r sel" and "set sel \<subseteq> set (tweets s)"
    and "distinct (map tweet_id (tweets s))"
  shows "\<forall>f \<in> set r. viewer_flags s v f"
proof
  fix f assume "f \<in> set r"
  then obtain i where i: "i < length r" "r ! i = f" by (auto simp: in_set_conv_nth)
  with assms(1) have d: "decorated s v f (sel ! i)" and l: "i < length sel"
    by (auto simp: list_all2_conv_all_nth)
  from l assms(2) have "sel ! i \<in> set (tweets s)" by auto
  with assms(3) have "Tweet_findById (tweets s) (tweet_id (sel ! i)) = Some (sel ! i)"
    by (simp add: Tweet_findById_distinct)
  with d show "viewer_flags s v f"
    by (simp add: viewer_flags_def decorated_def)
qed

text \<open>What each route selects, and that its entries show the selection.\<close>

lemma timeline_sel:
  assumes "User_findById (users s) U = Some u"
  shows "\<exists>r. timeline s (Some U) = Inr r \<and>
           list_all2 (decorated s (Some U)) r
             (limit 50 (sort_createdAt_desc
                (filter (\<lambda>t. (user t = U \<or> user t \<in> set (following u)) \<and> replyTo t = None)
                   (tweets s))))"
proof -
  have iu: "u_id u = U" using assms by (rule User_findById_id)
  let ?m = "filter (\<lambda>t. (user t = U \<or> user t \<in> set (following u)) \<and> replyTo t = None) (tweets s)"
  let ?sel = "limit 50 (sort_createdAt_desc ?m)"
  have m: "filter (\<lambda>d. user d \<in> set (following u @ [u_id u]) \<and> replyTo d = None) (tweets s) = ?m"
    using iu by (intro filter_cong) auto
  have "timeline s (Some U) =
          Inr (replyCounts (tweets s) 0 (map (formatTweet (users s) (Some u)) ?sel))"
    using assms iu by (simp add: timeline_def protect_def Let_def m)
  moreover have "list_all2 (decorated s (Some U))
          (replyCounts (tweets s) 0 (map (formatTweet (users s) (Some u)) ?sel)) ?sel"
    using feed_decorated [of s "Some u" ?sel] iu by simp
  ultimately show ?thesis by simp
qed

lemma explore_sel:
  "\<exists>r. explore s ru = Inr r \<and>
       list_all2 (decorated s (map_option u_id ru)) r
         (limit 50 (sort_createdAt_desc (filter (\<lambda>t. replyTo t = None) (tweets s))))"
  by (simp add: explore_def Let_def feed_decorated)

lemma replies_sel:
  "\<exists>r. replies s ru pid = Inr r \<and>
       list_all2 (decorated s (map_option u_id ru)) r
         (sort_createdAt_desc (filter (\<lambda>t. replyTo t = Some pid) (tweets s)))"
  by (simp add: replies_def Let_def replies_decorated)

lemma search_sel:
  assumes "search s ru q = Some (Inr r)"
  shows "\<exists>re. list_all2 (decorated s (map_option u_id ru)) r
           (limit 50 (sort_createdAt_desc (filter (\<lambda>t. regex_test re (content t)) (tweets s))))"
proof -
  from assms obtain re where
    "r = replyCounts (tweets s) 0 (map (formatTweet (users s) ru)
           (limit 50 (sort_createdAt_desc (filter (\<lambda>d. regex_test re (content d)) (tweets s)))))"
    by (auto simp: search_def Let_def split: option.splits if_splits)
  then show ?thesis using feed_decorated [of s ru] by (intro exI [of _ re]) simp
qed

text \<open>
  C2. For an authenticated user \<open>U\<close> the timeline is a list \<open>r\<close> of entries showing, one
  for one and in order, a selection \<open>sel\<close> of stored posts: \<open>sel\<close> is the feed of at most
  50 of the posts written by \<open>U\<close> or by a user \<open>U\<close> follows and replying to nothing, newest
  first; each entry carries the like and retweet flags of \<open>U\<close> and the number of stored
  posts replying to its post.
\<close>

theorem timeline_feed:
  assumes "User_findById (users s) U = Some u"
  shows "\<exists>r sel. timeline s (Some U) = Inr r \<and>
           newest_first_capped 50
             (filter (\<lambda>t. (user t = U \<or> user t \<in> set (following u)) \<and> replyTo t = None)
                (tweets s)) sel \<and>
           list_all2 (decorated s (Some U)) r sel"
  using timeline_sel [OF assms] newest_first_capped_limit by blast

text \<open>
  In \<open>db2\<close> the timeline of Alice is her own post, then Bob's post that she likes and
  that has one reply.
\<close>

lemma timeline_db2:
  "timeline db2 (Some 1) =
     Inr [\<lparr>f_id = 6, f_content = ''My first chirp'',
           f_user = Some \<lparr>p_id = 1, p_name = ''Alice'', p_username = ''alice'',
                          p_profileImage = []\<rparr>,
           f_createdAt = 8, likeCount = 0, retweetCount = 0, replyCount = 0,
           isLiked = False, isRetweeted = False, f_replyTo = None\<rparr>,
          \<lparr>f_id = 3, f_content = ''hello'',
           f_user = Some \<lparr>p_id = 2, p_name = ''Bob'', p_username = ''bob'',
                          p_profileImage = []\<rparr>,
           f_createdAt = 5, likeCount = 1, retweetCount = 0, replyCount = 1,
           isLiked = True, isRetweeted = False, f_replyTo = None\<rparr>]"
  by (simp add: timeline_def protect_def db2_def User_findById_def alice_def bob_def hello_def
      re_def grand_def mine_def Let_def sort_createdAt_desc_def limit_def formatTweet_def
      populate_user_def replyCounts_eq countDocuments_def)

theorem timeline_feed_witness:
  "User_findById (users db2) 1 = Some (alice\<lparr>following := [2]\<rparr>) \<and>
   (\<exists>r sel. timeline db2 (Some 1) = Inr r \<and> map f_id r = [6, 3] \<and>
       newest_first_capped 50
         (filter (\<lambda>t. (user t = 1 \<or> user t \<in> set (following (alice\<lparr>following := [2]\<rparr>))) \<and>
                      replyTo t = None) (tweets db2)) sel \<and>
       list_all2 (decorated db2 (Some 1)) r sel)"
proof -
  from timeline_feed [OF db2_alice] obtain r sel where
    r: "timeline db2 (Some 1) = Inr r"
    and n: "newest_first_capped 50
         (filter (\<lambda>t. (user t = 1 \<or> user t \<in> set (following (alice\<lparr>following := [2]\<rparr>))) \<and>
                      replyTo t = None) (tweets db2)) sel"
    and d: "list_all2 (decorated db2 (Some 1)) r sel"
    by blast
  from r [unfolded timeline_db2] have m: "map f_id r = [6, 3]" by auto
  have "\<exists>r sel. timeline db2 (Some 1) = Inr r \<and> map f_id r = [6, 3] \<and>
       newest_first_capped 50
         (filter (\<lambda>t. (user t = 1 \<or> user t \<in> set (following (alice\<lparr>following := [2]\<rparr>))) \<and>
                      replyTo t = None) (tweets db2)) sel \<and>
       list_all2 (decorated db2 (Some 1)) r sel"
    using r m n d by (intro exI [of _ r] exI [of _ sel] conjI)
  with db2_alice show ?thesis by (rule conjI)
qed

text \<open>
  C5. In a database whose posts have distinct ids, every entry returned by the timeline,
  by explore, by the replies of a post and by search carries the flags of the stored post
  with its id: \<open>isLiked\<close> and \<open>isRetweeted\<close> say whether the viewer \<open>req.user\<close> is among
  the likes and the retweets of that post, and both are false when the request has no
  \<open>req.user\<close>. The viewer of the timeline is the authenticated user.
\<close>

theorem feeds_viewer_flags:
  assumes "distinct (map tweet_id (tweets s))"
  shows "(\<forall>U u. User_findById (users s) U = Some u \<longrightarrow>
            (\<exists>r. timeline s (Some U) = Inr r \<and> (\<forall>f \<in> set r. viewer_flags s (Some U) f))) \<and>
         (\<exists>r. explore s ru = Inr r \<and> (\<forall>f \<in> set r. viewer_flags s (map_option u_id ru) f)) \<and>
         (\<exists>r. replies s ru pid = Inr r \<and> (\<forall>f \<in> set r. viewer_flags s (map_option u_id ru) f)) \<and>
         (\<forall>r. search s ru q = Some (Inr r) \<longrightarrow>
            (\<forall>f \<in> set r. viewer_flags s (map_option u_id ru) f))"
proof (intro conjI allI impI)
  fix U u assume "User_findById (users s) U = Some u"
  from timeline_sel [OF this] show
    "\<exists>r. timeline s (Some U) = Inr r \<and> (\<forall>f \<in> set r. viewer_flags s (Some U) f)"
    using flags_of_decorated [OF _ set_selection assms] by blast
next
  from explore_sel [of s ru] show
    "\<exists>r. explore s ru = Inr r \<and> (\<forall>f \<in> set r. viewer_flags s (map_option u_id ru) f)"
    using flags_of_decorated [OF _ set_selection assms] by blast
next
  from replies_sel [of s ru pid] show
    "\<exists>r. replies s ru pid = Inr r \<and> (\<forall>f \<in> set r. viewer_flags s (map_option u_id ru) f)"
    using flags_of_decorated [OF _ set_selection_all assms] by blast
next
  fix r assume "search s ru q = Some (Inr r)"
  from search_sel [OF this] show "\<forall>f \<in> set r. viewer_flags s (map_option u_id ru) f"
    using flags_of_decorated [OF _ set_selection assms] by blast
qed

theorem feeds_viewer_flags_witness:
  "distinct (map tweet_id (tweets db2)) \<and>
   User_findById (users db2) 1 = Some (alice\<lparr>following := [2]\<rparr>) \<and>
   (\<exists>r. timeline db2 (Some 1) = Inr r \<and> r \<noteq> [] \<and> (\<forall>f \<in> set r. viewer_flags db2 (Some 1) f)) \<and>
   (\<exists>r. explore db2 None = Inr r \<and> (\<forall>f \<in> set r. viewer_flags db2 None f)) \<and>
   (\<exists>r. replies db2 (Some (alice\<lparr>following := [2]\<rparr>)) 3 = Inr r \<and>
        (\<forall>f \<in> set r. viewer_flags db2 (Some 1) f)) \<and>
   (\<exists>r. search db2 (Some (alice\<lparr>following := [2]\<rparr>)) (Some ''hi'') = Some (Inr r) \<and>
        (\<forall>f \<in> set r. viewer_flags db2 (Some 1) f))"
proof -
  let ?a = "alice\<lparr>following := [2]\<rparr>"
  have ia: "map_option u_id (Some ?a) = Some 1" by (simp add: alice_def)
  note w = feeds_viewer_flags [OF db2_distinct]
  from w [of None 3 None] db2_alice
  have "\<exists>r. timeline db2 (Some 1) = Inr r \<and> (\<forall>f \<in> set r. viewer_flags db2 (Some 1) f)"
    by blast
  then have 1: "\<exists>r. timeline db2 (Some 1) = Inr r \<and> r \<noteq> [] \<and>
                   (\<forall>f \<in> set r. viewer_flags db2 (Some 1) f)"
    unfolding timeline_db2 by auto
  from w [of None 3 None]
  have 2: "\<exists>r. explore db2 None = Inr r \<and> (\<forall>f \<in> set r. viewer_flags db2 None f)"
    by simp
  from w [of "Some ?a" 3 "Some ''hi''"]
  have 3: "\<exists>r. replies db2 (Some ?a) 3 = Inr r \<and> (\<forall>f \<in> set r. viewer_flags db2 (Some 1) f)"
    unfolding ia by blast
  have "\<exists>r. search db2 (Some ?a) (Some ''hi'') = Some (Inr r)"
    by (simp add: search_def is_meta_def Let_def)
  with w [of "Some ?a" 3 "Some ''hi''"]
  have 4: "\<exists>r. search db2 (Some ?a) (Some ''hi'') = Some (Inr r) \<and>
               (\<forall>f \<in> set r. viewer_flags db2 (Some 1) f)"
    unfolding ia by blast
  from db2_distinct db2_alice 1 2 3 4 show ?thesis by blast
qed

section \<open>Search\<close>

text \<open>
  Matching a character or its other case is comparing the small letters of both.
\<close>

lemma letters_length: "length upper_letters = length lower_letters"
  by (simp add: upper_letters_def lower_letters_def)

lemma upper_facts:
  "list_all (\<lambda>u. other_case u = to_lower u \<and> other_case (to_lower u) = u \<and>
                 to_lower u \<in> set lower_letters) upper_letters"
  by code_simp

lemma lower_facts:
  "list_all (\<lambda>l. to_lower l = l \<and> to_lower (other_case l) = l \<and>
                 other_case l \<in> set upper_letters) lower_letters"
  by code_simp

lemma upper_fix:
  "u \<in> set upper_letters \<Longrightarrow>
   other_case u = to_lower u \<and> other_case (to_lower u) = u \<and> to_lower u \<in> set lower_letters"
  using upper_facts by (simp add: list_all_iff)

lemma lower_fix:
  "l \<in> set lower_letters \<Longrightarrow>
   to_lower l = l \<and> to_lower (other_case l) = l \<and> other_case l \<in> set upper_letters"
  using lower_facts by (simp add: list_all_iff)

lemma no_case:
  assumes "c \<notin> set upper_letters" and "c \<notin> set lower_letters"
  shows "to_lower c = c" and "other_case c = c"
proof -
  have 1: "map_of (zip upper_letters lower_letters) c = None"
    using assms(1) letters_length by (simp add: map_of_zip_is_None)
  have 2: "map_of (zip lower_letters upper_letters) c = None"
    using assms(2) letters_length by (simp add: map_of_zip_is_None)
  show "to_lower c = c" by (simp add: to_lower_def 1)
  show "other_case c = c" by (simp add: other_case_def 1 2 map_add_def)
qed

lemma case_cases:
  obtains (up) "x \<in> set upper_letters" | (lo) "x \<in> set lower_letters"
  | (no) "to_lower x = x" "other_case x = x"
  using no_case by blast

lemma to_lower_other_case: "to_lower (other_case x) = to_lower x"
proof (cases x rule: case_cases)
  case up
  then show ?thesis using upper_fix [of x] lower_fix [of "to_lower x"] by simp
next
  case lo
  then show ?thesis using lower_fix [of x] by simp
qed simp_all

lemma other_case_involution: "other_case (other_case x) = x"
proof (cases x rule: case_cases)
  case up
  then show ?thesis using upper_fix [of x] by simp
next
  case lo
  then show ?thesis using lower_fix [of x] upper_fix [of "other_case x"] by simp
qed simp_all

lemma to_lower_or_other: "x = to_lower x \<or> x = other_case (to_lower x)"
proof (cases x rule: case_cases)
  case up
  then show ?thesis using upper_fix [of x] by simp
next
  case lo
  then show ?thesis using lower_fix [of x] by simp
qed simp_all

lemma caseless_eq: "(c = l \<or> c = other_case l) \<longleftrightarrow> to_lower l = to_lower c"
  by (metis to_lower_other_case other_case_involution to_lower_or_other)

lemma compile_literal:
  "\<forall>c \<in> set qs. \<not> is_meta c \<and> c \<noteq> CHR ''.'' \<Longrightarrow> compile_regex qs = Some (map Lit qs)"
  by (induction qs) simp_all

lemma match_here_literal:
  "match_here (map Lit qs) cs \<longleftrightarrow> prefix (map to_lower qs) (map to_lower cs)"
proof (induction qs arbitrary: cs)
  case Nil
  then show ?case by simp
next
  case (Cons q qs)
  then show ?case by (cases cs) (simp_all add: caseless_eq)
qed

lemma regex_test_literal:
  "regex_test (map Lit qs) cs \<longleftrightarrow> sublist (map to_lower qs) (map to_lower cs)"
proof (induction cs)
  case Nil
  then show ?case by (cases qs) simp_all
next
  case (Cons c cs)
  then show ?case
    using match_here_literal [of qs "c # cs"] by (simp add: sublist_Cons_right)
qed

text \<open>
  C7, as the handler has it. \<open>search\<close> answers 400 "Search query is required" exactly
  when the query is missing or empty. A query that is not empty and made of ordinary
  characters only (no dot, no other metacharacter of regular expressions) returns entries
  showing the feed of at most 50 of the posts whose content contains the query as a
  substring, letters compared without case, newest first.
\<close>

theorem search_literal_query:
  "(search s ru q = Some (Inl (400, ''Search query is required'')) \<longleftrightarrow> q = None \<or> q = Some []) \<and>
   (\<forall>qs. q = Some qs \<and> qs \<noteq> [] \<and> (\<forall>c \<in> set qs. \<not> is_meta c \<and> c \<noteq> CHR ''.'') \<longrightarrow>
      (\<exists>r sel. search s ru q = Some (Inr r) \<and>
         newest_first_capped 50 (filter (\<lambda>t. contains_ci qs (content t)) (tweets s)) sel \<and>
         list_all2 (decorated s (map_option u_id ru)) r sel))"
proof (intro conjI allI impI)
  show "search s ru q = Some (Inl (400, ''Search query is required'')) \<longleftrightarrow> q = None \<or> q = Some []"
    by (auto simp: search_def Let_def split: option.splits)
next
  fix qs assume a: "q = Some qs \<and> qs \<noteq> [] \<and> (\<forall>c \<in> set qs. \<not> is_meta c \<and> c \<noteq> CHR ''.'')"
  let ?m = "filter (\<lambda>t. contains_ci qs (content t)) (tweets s)"
  let ?sel = "limit 50 (sort_createdAt_desc ?m)"
  have c: "compile_regex qs = Some (map Lit qs)" using a by (simp add: compile_literal)
  have "search s ru q =
          Some (Inr (replyCounts (tweets s) 0 (map (formatTweet (users s) ru) ?sel)))"
    using a by (simp add: search_def c Let_def regex_test_literal contains_ci_def)
  then show "\<exists>r sel. search s ru q = Some (Inr r) \<and> newest_first_capped 50 ?m sel \<and>
         list_all2 (decorated s (map_option u_id ru)) r sel"
    using newest_first_capped_limit [of 50 ?m] feed_decorated [of s ru ?sel] by blast
qed

text \<open>
  In \<open>db3\<close> the query of a capital E with acute accent finds the post \<open>cafe\<close>, whose last
  letter is the small one.
\<close>

lemma search_db3_accent:
  "search db3 None (Some [CHR 0xC9]) =
     Some (Inr [\<lparr>f_id = 11, f_content = [CHR ''c'', CHR ''a'', CHR ''f'', CHR 0xE9],
                 f_user = Some \<lparr>p_id = 10, p_name = ''Carol'', p_username = ''carol'',
                                p_profileImage = []\<rparr>,
                 f_createdAt = 3, likeCount = 0, retweetCount = 0, replyCount = 0,
                 isLiked = False, isRetweeted = False, f_replyTo = None\<rparr>])"
  by (simp add: search_def is_meta_def db3_def User_findById_def carol_def cafe_def
      Let_def sort_createdAt_desc_def limit_def formatTweet_def populate_user_def
      replyCounts_eq countDocuments_def other_case_def upper_letters_def lower_letters_def)

theorem search_literal_query_witness:
  "''HI'' \<noteq> [] \<and> list_all (\<lambda>c. \<not> is_meta c \<and> c \<noteq> CHR ''.'') ''HI'' \<and>
   filter (\<lambda>t. contains_ci ''HI'' (content t)) (tweets db2) = [re, grand, mine] \<and>
   (\<exists>r sel. search db2 None (Some ''HI'') = Some (Inr r) \<and>
      newest_first_capped 50 (filter (\<lambda>t. contains_ci ''HI'' (content t)) (tweets db2)) sel \<and>
      list_all2 (decorated db2 None) r sel) \<and>
   list_all (\<lambda>c. \<not> is_meta c \<and> c \<noteq> CHR ''.'') [CHR 0xC9] \<and>
   filter (\<lambda>t. contains_ci [CHR 0xC9] (content t)) (tweets db3) = [cafe] \<and>
   (\<exists>r sel. search db3 None (Some [CHR 0xC9]) = Some (Inr r) \<and> map f_id r = [11] \<and>
      newest_first_capped 50 (filter (\<lambda>t. contains_ci [CHR 0xC9] (content t)) (tweets db3)) sel \<and>
      list_all2 (decorated db3 None) r sel)"
proof -
  have h1: "''HI'' \<noteq> []" by simp
  have h2: "\<forall>c \<in> set ''HI''. \<not> is_meta c \<and> c \<noteq> CHR ''.''" by (simp add: is_meta_def)
  have e: "filter (\<lambda>t. contains_ci ''HI'' (content t)) (tweets db2) = [re, grand, mine]"
    by (simp add: db2_def contains_ci_def to_lower_def upper_letters_def lower_letters_def
        hello_def re_def grand_def mine_def sublist_Cons_right)
  have h2': "list_all (\<lambda>c. \<not> is_meta c \<and> c \<noteq> CHR ''.'') ''HI''"
    using h2 by (simp only: list_all_iff)
  from search_literal_query [of db2 None "Some ''HI''"] h1 h2
  have 1: "\<exists>r sel. search db2 None (Some ''HI'') = Some (Inr r) \<and>
      newest_first_capped 50 (filter (\<lambda>t. contains_ci ''HI'' (content t)) (tweets db2)) sel \<and>
      list_all2 (decorated db2 None) r sel"
    by simp
  have g2: "\<forall>c \<in> set [CHR 0xC9]. \<not> is_meta c \<and> c \<noteq> CHR ''.''" by (simp add: is_meta_def)
  have g2': "list_all (\<lambda>c. \<not> is_meta c \<and> c \<noteq> CHR ''.'') [CHR 0xC9]"
    using g2 by (simp only: list_all_iff)
  have e3: "filter (\<lambda>t. contains_ci [CHR 0xC9] (content t)) (tweets db3) = [cafe]"
    by (simp add: db3_def contains_ci_def to_lower_def upper_letters_def lower_letters_def
        cafe_def sublist_Cons_right)
  from search_literal_query [of db3 None "Some [CHR 0xC9]"] g2
  obtain r sel where r: "search db3 None (Some [CHR 0xC9]) = Some (Inr r)"
    and n: "newest_first_capped 50
              (filter (\<lambda>t. contains_ci [CHR 0xC9] (content t)) (tweets db3)) sel"
    and d: "list_all2 (decorated db3 None) r sel"
    by auto
  from r [unfolded search_db3_accent] have m: "map f_id r = [11]" by auto
  have 2: "\<exists>r sel. search db3 None (Some [CHR 0xC9]) = Some (Inr r) \<and> map f_id r = [11] \<and>
      newest_first_capped 50
        (filter (\<lambda>t. contains_ci [CHR 0xC9] (content t)) (tweets db3)) sel \<and>
      list_all2 (decorated db3 None) r sel"
    using r m n d by (intro exI [of _ r] exI [of _ sel] conjI)
  from h1 h2' e 1 g2' e3 2 show ?thesis by (intro conjI)
qed

text \<open>
  The query of one dot returns the post \<open>hello\<close>, whose content has no dot.
\<close>

theorem search_regex_counterexample:
  "search db1 None (Some ''.'') =
     Some (Inr [\<lparr>f_id = 3, f_content = ''hello'',
                 f_user = Some \<lparr>p_id = 2, p_name = ''Bob'', p_username = ''bob'',
                                p_profileImage = []\<rparr>,
                 f_createdAt = 5, likeCount = 0, retweetCount = 0, replyCount = 0,
                 isLiked = False, isRetweeted = False, f_replyTo = None\<rparr>]) \<and>
   \<not> contains_ci ''.'' ''hello''"
  by (simp add: search_def is_meta_def db1_def User_findById_def alice_def bob_def hello_def
      Let_def sort_createdAt_desc_def limit_def formatTweet_def populate_user_def
      replyCounts_eq countDocuments_def contains_ci_def to_lower_def upper_letters_def lower_letters_def sublist_Cons_right)

end
